theory Spec2Isabelle
  imports Complex_Main
begin

section \<open>Session controller (App.tsx): data model\<close>

text \<open>
  JavaScript numbers are modelled as mathematical reals: the arithmetic of the source
  (\<^verbatim>\<open>min + (value / 127) * (max - min)\<close>, depth increments, rounding of particle counts)
  is evaluated exactly, without the rounding of IEEE doubles and without NaN or infinities.

  A settings object is a finite map from property names to values. Object spread
  \<^verbatim>\<open>{...a, ...b}\<close> is map override \<open>a ++ b\<close>; spreading \<^verbatim>\<open>undefined\<close> contributes nothing.
\<close>

datatype jsval = Num real | Flag bool | Str string

type_synonym settings = "string \<rightharpoonup> jsval"

type_synonym PluginKey = string

text \<open>
  Objects live in a store, so that reference identity can be talked about: the React
  state \<^verbatim>\<open>pluginStates\<close> holds the address of a mapping object, which maps each plugin
  key to the address of that plugin's settings object. Object literals allocate at
  \<open>nextAddr\<close>. No object of the source is ever mutated in place.
\<close>

type_synonym addr = nat

type_synonym PluginStates = "PluginKey \<rightharpoonup> addr"

text \<open>The learn target and a recorded mapping have the same four fields in the source.\<close>

record MidiMapping =
  pluginKey :: PluginKey
  paramName :: string
  minVal :: real
  maxVal :: real

record SidechainLink =
  link_from :: PluginKey
  link_to :: PluginKey

record Preset =
  preset_name :: string
  preset_states :: addr

text \<open>
  A MIDI message as \<^verbatim>\<open>handleMidiMessage\<close> destructures it: \<^verbatim>\<open>const [, cc, value] = message.data\<close>
  (bytes of a \<^verbatim>\<open>Uint8Array\<close>) and \<^verbatim>\<open>message.target.id\<close>; \<open>None\<close> is a missing target.
\<close>

record MIDIMessageEvent =
  msg_status :: nat
  msg_cc :: nat
  msg_value :: nat
  msg_target :: "string option"

record App =
  settingsObjs :: "addr \<rightharpoonup> settings"
  statesObjs :: "addr \<rightharpoonup> PluginStates"
  nextAddr :: addr
  pluginStates :: addr
  midiMappings :: "string \<rightharpoonup> MidiMapping"
  midiLearnTarget :: "MidiMapping option"
  presets :: "Preset list"
  sidechainLinks :: "SidechainLink list"

subsection \<open>Reading the store\<close>

definition spread :: "settings option \<Rightarrow> settings" where
  "spread obj = (case obj of None \<Rightarrow> Map.empty | Some m \<Rightarrow> m)"

definition currentStates :: "App \<Rightarrow> PluginStates" where
  "currentStates s = (case statesObjs s (pluginStates s) of None \<Rightarrow> Map.empty | Some m \<Rightarrow> m)"

definition refOf :: "App \<Rightarrow> PluginKey \<Rightarrow> addr option" where
  "refOf s k = currentStates s k"

definition settingsOf :: "App \<Rightarrow> PluginKey \<Rightarrow> settings option" where
  "settingsOf s k = (case refOf s k of None \<Rightarrow> None | Some a \<Rightarrow> settingsObjs s a)"

definition newSettingsObj :: "settings \<Rightarrow> App \<Rightarrow> addr \<times> App" where
  "newSettingsObj v s =
     (nextAddr s, s\<lparr>settingsObjs := (settingsObjs s)(nextAddr s \<mapsto> v), nextAddr := Suc (nextAddr s)\<rparr>)"

definition newStatesObj :: "PluginStates \<Rightarrow> App \<Rightarrow> addr \<times> App" where
  "newStatesObj v s =
     (nextAddr s, s\<lparr>statesObjs := (statesObjs s)(nextAddr s \<mapsto> v), nextAddr := Suc (nextAddr s)\<rparr>)"

text \<open>
  The allocator invariant: every object in the store, the current mapping object and
  every reference held by a mapping object lie below \<open>nextAddr\<close>.
\<close>

definition allocated :: "App \<Rightarrow> bool" where
  "allocated s \<longleftrightarrow>
     (\<forall>a. nextAddr s \<le> a \<longrightarrow> settingsObjs s a = None \<and> statesObjs s a = None) \<and>
     pluginStates s < nextAddr s \<and>
     (\<forall>b m k a. statesObjs s b = Some m \<longrightarrow> m k = Some a \<longrightarrow> a < nextAddr s)"

subsection \<open>Parameter store: handlePluginStateChange\<close>

text \<open>
  The second argument is a partial settings object or a function of the previous settings
  (which are \<^verbatim>\<open>undefined\<close>, here \<open>None\<close>, for a key the mapping does not have).
\<close>

datatype newState = Partial settings | Updater "settings option \<Rightarrow> settings"

definition partialOf :: "newState \<Rightarrow> settings option \<Rightarrow> settings" where
  "partialOf newState currentPluginState =
     (case newState of Updater f \<Rightarrow> f currentPluginState | Partial p \<Rightarrow> p)"

definition handlePluginStateChange :: "PluginKey \<Rightarrow> newState \<Rightarrow> App \<Rightarrow> App" where
  "handlePluginStateChange pluginId newState s =
     (let prevStates = currentStates s;
          currentPluginState = (case prevStates pluginId of None \<Rightarrow> None | Some a \<Rightarrow> settingsObjs s a);
          updatedPartialState = partialOf newState currentPluginState;
          (a, s1) = newSettingsObj (spread currentPluginState ++ updatedPartialState) s;
          (b, s2) = newStatesObj (prevStates(pluginId \<mapsto> a)) s1
      in s2\<lparr>pluginStates := b\<rparr>)"

subsection \<open>MIDI mapping layer\<close>

text \<open>Decimal rendering of a number in a template literal.\<close>

definition digitChar :: "nat \<Rightarrow> char" where
  "digitChar d = ''0123456789'' ! d"

function showNat :: "nat \<Rightarrow> string" where
  "showNat n = (if n < 10 then [digitChar n] else showNat (n div 10) @ [digitChar (n mod 10)])"
  by pat_completeness auto
termination
  by (relation "measure (\<lambda>n. n)") auto

declare showNat.simps [simp del]

text \<open>\<^verbatim>\<open>const mappingKey = `${deviceId}-${cc}`\<close>\<close>

definition mappingKey :: "string \<Rightarrow> nat \<Rightarrow> string" where
  "mappingKey deviceId cc = deviceId @ ''-'' @ showNat cc"

text \<open>
  \<^verbatim>\<open>isControlChange\<close> (lib/midi) is a parameter. Telemetry calls
  (\<^verbatim>\<open>PrimeBrainStub.sendEvent\<close>) change no state of the session and are left out.
  The setters of the React state are applied at once and in the order of the calls, and a
  handler reads the state current at its call: the source re-creates its callbacks
  whenever the state they read has changed.
\<close>

definition handleMidiMessage :: "(MIDIMessageEvent \<Rightarrow> bool) \<Rightarrow> MIDIMessageEvent \<Rightarrow> App \<Rightarrow> App" where
  "handleMidiMessage isControlChange message s =
     (case msg_target message of
        None \<Rightarrow> s
      | Some deviceId \<Rightarrow>
          if \<not> isControlChange message then s
          else
            (let cc = msg_cc message;
                 v = msg_value message;
                 key = mappingKey deviceId cc
             in case midiLearnTarget s of
                  Some t \<Rightarrow>
                    (let newMapping = \<lparr>pluginKey = pluginKey t, paramName = paramName t,
                                        minVal = minVal t, maxVal = maxVal t\<rparr>
                     in s\<lparr>midiMappings := (midiMappings s)(key \<mapsto> newMapping),
                          midiLearnTarget := None\<rparr>)
                | None \<Rightarrow>
                    (case midiMappings s key of
                       None \<Rightarrow> s
                     | Some mapping \<Rightarrow>
                         (let scaledValue = minVal mapping + (real v / 127) * (maxVal mapping - minVal mapping)
                          in handlePluginStateChange (pluginKey mapping)
                               (Updater (\<lambda>prevState. (spread prevState)(paramName mapping \<mapsto> Num scaledValue)))
                               s))))"

definition handleMidiLearnStart :: "PluginKey \<Rightarrow> string \<Rightarrow> real \<Rightarrow> real \<Rightarrow> App \<Rightarrow> App" where
  "handleMidiLearnStart pk pn mn mx s =
     s\<lparr>midiLearnTarget :=
         (case midiLearnTarget s of
            Some prev \<Rightarrow>
              if pluginKey prev = pk \<and> paramName prev = pn then None
              else Some \<lparr>pluginKey = pk, paramName = pn, minVal = mn, maxVal = mx\<rparr>
          | None \<Rightarrow> Some \<lparr>pluginKey = pk, paramName = pn, minVal = mn, maxVal = mx\<rparr>)\<rparr>"

subsection \<open>Presets and sidechain links\<close>

definition handleLoadPreset :: "string \<Rightarrow> App \<Rightarrow> App" where
  "handleLoadPreset n s =
     (case find (\<lambda>p. preset_name p = n) (presets s) of
        None \<Rightarrow> s
      | Some preset \<Rightarrow> s\<lparr>pluginStates := preset_states preset\<rparr>)"

definition handleAddLink :: "SidechainLink \<Rightarrow> App \<Rightarrow> App" where
  "handleAddLink newLink s =
     (if list_ex (\<lambda>link. link_to link = link_to newLink) (sidechainLinks s) then s
      else s\<lparr>sidechainLinks := sidechainLinks s @ [newLink]\<rparr>)"

text \<open>
  \<^verbatim>\<open>findPlugin(k).canBeSidechainTarget\<close> (constants) is the parameter \<open>canBeSidechainTarget\<close>.
\<close>

definition handleRemoveLink :: "(PluginKey \<Rightarrow> bool) \<Rightarrow> SidechainLink \<Rightarrow> App \<Rightarrow> App" where
  "handleRemoveLink canBeSidechainTarget linkToRemove s =
     (let s1 = s\<lparr>sidechainLinks :=
                  filter (\<lambda>link. \<not> (link_from link = link_from linkToRemove \<and>
                                      link_to link = link_to linkToRemove))
                    (sidechainLinks s)\<rparr>;
          targetPluginKey = link_to linkToRemove
      in if canBeSidechainTarget targetPluginKey
         then handlePluginStateChange targetPluginKey (Partial [''sidechainActive'' \<mapsto> Flag False]) s1
         else s1)"

section \<open>MixxVerb visualizer bridge (MixxVerb.tsx)\<close>

text \<open>
  The colour string \<^verbatim>\<open>hsla(${baseHue + variation}, 100%, 60%, 1)\<close> is represented by its hue
  argument.
\<close>

record Particle =
  p_id :: nat
  p_x :: real
  p_y :: real
  p_z :: real
  p_opacity :: real
  p_size :: real
  p_spawnTime :: real
  p_life :: real
  p_color :: real

record MixxVerbSettings =
  v_size :: real
  v_predelay :: real
  v_mix :: real
  v_output :: real

record AudioSignal =
  sig_time :: real
  sig_transients :: bool

record GlobalSettings =
  animationIntensity :: real
  visualizerComplexity :: string

record VerbVisualizerData =
  vd_particles :: "Particle list"
  vd_isPulsing :: bool

text \<open>
  The two closures handed to \<^verbatim>\<open>setTimeout\<close>: the pulse reset, and the particle burst with
  the values it captures when it is scheduled.
\<close>

record BurstClosure =
  b_complexity :: string
  b_normalizedMix :: real
  b_now :: real
  b_size :: real
  b_baseHue :: real

datatype callback = PulseOff | Burst BurstClosure

record Timer =
  t_handle :: nat
  t_due :: real
  t_callback :: callback

text \<open>
  The fields of \<^verbatim>\<open>MixxVerbVstBridge\<close>, together with the host's timer queue: the pending
  timers, the next handle (handles are positive) and the wall clock in milliseconds.
\<close>

record Bridge =
  settings :: MixxVerbSettings
  particles :: "Particle list"
  particleIdCounter :: nat
  isPulsing :: bool
  pulseTimeout :: "nat option"
  lastTransientTime :: real
  timers :: "Timer list"
  nextHandle :: nat
  clock :: real

definition newBridge :: "MixxVerbSettings \<Rightarrow> Bridge" where
  "newBridge initialSettings =
     \<lparr>settings = initialSettings, particles = [], particleIdCounter = 0, isPulsing = False,
      pulseTimeout = None, lastTransientTime = 0, timers = [], nextHandle = 1, clock = 0\<rparr>"

subsection \<open>Host timers\<close>

definition setTimeout :: "callback \<Rightarrow> real \<Rightarrow> Bridge \<Rightarrow> nat \<times> Bridge" where
  "setTimeout cb delay b =
     (nextHandle b,
      b\<lparr>timers := timers b @ [\<lparr>t_handle = nextHandle b, t_due = clock b + max 0 delay, t_callback = cb\<rparr>],
        nextHandle := Suc (nextHandle b)\<rparr>)"

definition clearTimeout :: "nat \<Rightarrow> Bridge \<Rightarrow> Bridge" where
  "clearTimeout h b = b\<lparr>timers := filter (\<lambda>t. t_handle t \<noteq> h) (timers b)\<rparr>"

subsection \<open>dspProcess\<close>

text \<open>
  Modelled from the spec: \<^verbatim>\<open>mapRange\<close> (lib/utils) is not among the sources. The spec documents
  the call \<^verbatim>\<open>mapRange(animationIntensity, 0, 100, 1, 0.25)\<close> as the range mapping
  0--100 to 1.0--0.25; it is taken to be the linear map of the input range onto the output
  range.
\<close>

definition mapRange :: "real \<Rightarrow> real \<Rightarrow> real \<Rightarrow> real \<Rightarrow> real \<Rightarrow> real" where
  "mapRange v inMin inMax outMin outMax = outMin + (v - inMin) * (outMax - outMin) / (inMax - inMin)"

definition moodHueMap :: "string \<rightharpoonup> real" where
  "moodHueMap = [''Warm'' \<mapsto> 40, ''Bright'' \<mapsto> 190, ''Dark'' \<mapsto> 270, ''Energetic'' \<mapsto> 320,
                 ''Neutral'' \<mapsto> 195]"

text \<open>\<^verbatim>\<open>Math.round\<close> rounds to the nearest integer, halves upwards.\<close>

definition mathRound :: "real \<Rightarrow> int" where
  "mathRound v = \<lfloor>v + 1 / 2\<rfloor>"

definition particleCount :: "string \<Rightarrow> real \<Rightarrow> int" where
  "particleCount complexity normalizedMix =
     (if complexity = ''low'' then 10 else 20) +
     mathRound (normalizedMix * (if complexity = ''low'' then 30 else 60))"

text \<open>
  \<^verbatim>\<open>Math.random()\<close> is a stream \<open>rnd\<close> of draws, read in the order of the calls. Each new
  particle takes five draws (variation, x, y, opacity, size), each update three (x, y,
  opacity).
\<close>

fun mkParticles :: "BurstClosure \<Rightarrow> (nat \<Rightarrow> real) \<Rightarrow> nat \<Rightarrow> nat \<Rightarrow> nat \<Rightarrow> Particle list" where
  "mkParticles c rnd k idCounter 0 = []"
| "mkParticles c rnd k idCounter (Suc n) =
     (let variation = rnd k * 60 - 30 in
      \<lparr>p_id = Suc idCounter,
       p_x = (rnd (k + 1) - 0.5) * 0.1,
       p_y = (rnd (k + 2) - 0.5) * 0.1,
       p_z = 0,
       p_opacity = 0.5 + rnd (k + 3) * 0.5,
       p_size = 1 + rnd (k + 4) * 3,
       p_spawnTime = b_now c,
       p_life = 0.5 + (b_size c / 100) * 1.5,
       p_color = b_baseHue c + variation\<rparr>
      # mkParticles c rnd (k + 5) (Suc idCounter) n)"

text \<open>The body of the delayed burst callback (lines 72--90).\<close>

definition runBurst :: "BurstClosure \<Rightarrow> (nat \<Rightarrow> real) \<Rightarrow> Bridge \<Rightarrow> Bridge" where
  "runBurst c rnd b =
     (let count = nat (particleCount (b_complexity c) (b_normalizedMix c));
          newParticles = mkParticles c rnd 0 (particleIdCounter b) count;
          pushed = particles b @ newParticles
      in b\<lparr>particleIdCounter := particleIdCounter b + count,
           particles := (if length pushed > 300 then drop (length pushed - 300) pushed else pushed)\<rparr>)"

definition runCallback :: "callback \<Rightarrow> (nat \<Rightarrow> real) \<Rightarrow> Bridge \<Rightarrow> Bridge" where
  "runCallback cb rnd b = (case cb of PulseOff \<Rightarrow> b\<lparr>isPulsing := False\<rparr> | Burst c \<Rightarrow> runBurst c rnd b)"

text \<open>
  One step of the \<^verbatim>\<open>map\<close> of lines 96--105. For a lifetime of 0 the quotient is 0 here and
  infinite or NaN in JavaScript; the particle is dropped by the depth test of the filter
  in both readings unless its new depth is negative, and is kept in both if it is.
\<close>

definition updateParticle :: "real \<Rightarrow> real \<Rightarrow> real \<Rightarrow> real \<Rightarrow> Particle \<Rightarrow> Particle" where
  "updateParticle depthSpeed r1 r2 r3 p =
     (let newZ = p_z p + depthSpeed;
          lifeLeft = 1 - (newZ / p_life p)
      in p\<lparr>p_z := newZ,
           p_x := p_x p + (r1 - 0.5) * 0.01,
           p_y := p_y p + (r2 - 0.5) * 0.01,
           p_opacity := (0.5 + r3 * 0.5) * lifeLeft\<rparr>)"

fun updateParticles :: "real \<Rightarrow> (nat \<Rightarrow> real) \<Rightarrow> nat \<Rightarrow> Particle list \<Rightarrow> Particle list" where
  "updateParticles depthSpeed rnd k [] = []"
| "updateParticles depthSpeed rnd k (p # ps) =
     updateParticle depthSpeed (rnd k) (rnd (k + 1)) (rnd (k + 2)) p
     # updateParticles depthSpeed rnd (k + 3) ps"

definition alive :: "Particle \<Rightarrow> bool" where
  "alive p \<longleftrightarrow> p_z p < p_life p \<and> p_opacity p > 0.01"

definition depthSpeedOf :: "GlobalSettings \<Rightarrow> real" where
  "depthSpeedOf globalSettings =
     (let animationSpeedMultiplier = mapRange (animationIntensity globalSettings) 0 100 1 0.25
      in 0.005 * animationSpeedMultiplier)"

definition baseHueOf :: "string option \<Rightarrow> real" where
  "baseHueOf extraMood =
     (let mood = (case extraMood of None \<Rightarrow> ''Neutral'' | Some m \<Rightarrow> if m = [] then ''Neutral'' else m)
      in case moodHueMap mood of None \<Rightarrow> 195 | Some h \<Rightarrow> if h = 0 then 195 else h)"

text \<open>Lines 61--93: what a frame does when the signal carries a transient.\<close>

definition spawnOnTransient :: "AudioSignal \<Rightarrow> GlobalSettings \<Rightarrow> string option \<Rightarrow> Bridge \<Rightarrow> Bridge" where
  "spawnOnTransient audioSignal globalSettings extraMood b =
     (let now = sig_time audioSignal in
      if sig_transients audioSignal \<and> now > lastTransientTime b + 0.1 then
        (let b1 = b\<lparr>lastTransientTime := now\<rparr>;
             normalizedMix = v_mix (settings b) / 100
         in if normalizedMix > 0.01 then
              (let b2 = b1\<lparr>isPulsing := True\<rparr>;
                   b3 = (case pulseTimeout b2 of
                           None \<Rightarrow> b2
                         | Some h \<Rightarrow> if h \<noteq> 0 then clearTimeout h b2 else b2);
                   (h1, b4) = setTimeout PulseOff 100 b3;
                   b5 = b4\<lparr>pulseTimeout := Some h1\<rparr>;
                   (h2, b6) = setTimeout
                                (Burst \<lparr>b_complexity = visualizerComplexity globalSettings,
                                        b_normalizedMix = normalizedMix,
                                        b_now = now,
                                        b_size = v_size (settings b),
                                        b_baseHue = baseHueOf extraMood\<rparr>)
                                (v_predelay (settings b)) b5
               in b6)
            else b1)
      else b)"

definition dspProcess ::
  "AudioSignal \<Rightarrow> real \<Rightarrow> real \<Rightarrow> GlobalSettings \<Rightarrow> string option \<Rightarrow> (nat \<Rightarrow> real) \<Rightarrow> Bridge
     \<Rightarrow> Bridge \<times> VerbVisualizerData" where
  "dspProcess audioSignal width height globalSettings extraMood rnd b =
     (let b1 = spawnOnTransient audioSignal globalSettings extraMood b;
          b2 = b1\<lparr>particles :=
                  filter alive (updateParticles (depthSpeedOf globalSettings) rnd 0 (particles b1))\<rparr>
      in (b2, \<lparr>vd_particles = particles b2, vd_isPulsing = isPulsing b2\<rparr>))"

subsection \<open>The life of a bridge: frames, timer callbacks, passing time\<close>

definition fire :: "nat \<Rightarrow> (nat \<Rightarrow> real) \<Rightarrow> Bridge \<Rightarrow> Bridge" where
  "fire h rnd b =
     (case find (\<lambda>t. t_handle t = h) (timers b) of
        None \<Rightarrow> b
      | Some t \<Rightarrow>
          if t_due t \<le> clock b
          then runCallback (t_callback t) rnd (b\<lparr>timers := filter (\<lambda>t. t_handle t \<noteq> h) (timers b)\<rparr>)
          else b)"

datatype event =
    Frame AudioSignal GlobalSettings "string option" "nat \<Rightarrow> real"
  | Fire nat "nat \<Rightarrow> real"
  | Elapse real
  | SetSettings MixxVerbSettings

fun step :: "event \<Rightarrow> Bridge \<Rightarrow> Bridge" where
  "step (Frame audioSignal globalSettings extraMood rnd) b =
     fst (dspProcess audioSignal 0 0 globalSettings extraMood rnd b)"
| "step (Fire h rnd) b = fire h rnd b"
| "step (Elapse dt) b = b\<lparr>clock := clock b + max 0 dt\<rparr>"
| "step (SetSettings v) b = b\<lparr>settings := v\<rparr>"

definition run :: "event list \<Rightarrow> Bridge \<Rightarrow> Bridge" where
  "run evs b = fold step evs b"

text \<open>The burst sizes of the callbacks that are pending.\<close>

fun pendingBursts :: "Timer list \<Rightarrow> BurstClosure list" where
  "pendingBursts [] = []"
| "pendingBursts (t # ts) =
     (case t_callback t of PulseOff \<Rightarrow> pendingBursts ts | Burst c \<Rightarrow> c # pendingBursts ts)"

section \<open>Auxiliary definitions for the statements\<close>

text \<open>Reading one parameter of one plugin through the current mapping object.\<close>

definition paramOf :: "App \<Rightarrow> PluginKey \<Rightarrow> string \<Rightarrow> jsval option" where
  "paramOf s k p = (case settingsOf s k of None \<Rightarrow> None | Some st \<Rightarrow> st p)"

text \<open>Sequences of link operations.\<close>

datatype linkOp = AddLink SidechainLink | RemoveLink SidechainLink

fun applyLinkOp :: "(PluginKey \<Rightarrow> bool) \<Rightarrow> linkOp \<Rightarrow> App \<Rightarrow> App" where
  "applyLinkOp canBeSidechainTarget (AddLink l) s = handleAddLink l s"
| "applyLinkOp canBeSidechainTarget (RemoveLink l) s = handleRemoveLink canBeSidechainTarget l s"

definition runLinkOps :: "(PluginKey \<Rightarrow> bool) \<Rightarrow> linkOp list \<Rightarrow> App \<Rightarrow> App" where
  "runLinkOps canBeSidechainTarget ops s = fold (applyLinkOp canBeSidechainTarget) ops s"

definition linksInto :: "PluginKey \<Rightarrow> SidechainLink list \<Rightarrow> SidechainLink list" where
  "linksInto k links = filter (\<lambda>l. link_to l = k) links"

text \<open>A small session used to instantiate the theorems.\<close>

definition exampleApp :: App where
  "exampleApp =
     \<lparr>settingsObjs = [0 \<mapsto> [''mix'' \<mapsto> Num 30, ''size'' \<mapsto> Num 50],
                      1 \<mapsto> [''ratio'' \<mapsto> Num 4, ''sidechainActive'' \<mapsto> Flag True]],
      statesObjs = [2 \<mapsto> [''reverb'' \<mapsto> 0, ''comp'' \<mapsto> 1]],
      nextAddr = 3,
      pluginStates = 2,
      midiMappings = [mappingKey ''dev1'' 10 \<mapsto>
                        \<lparr>pluginKey = ''reverb'', paramName = ''mix'', minVal = 0, maxVal = 100\<rparr>],
      midiLearnTarget = None,
      presets = [\<lparr>preset_name = ''P1'', preset_states = 2\<rparr>],
      sidechainLinks = [\<lparr>link_from = ''delay'', link_to = ''comp''\<rparr>]\<rparr>"

text \<open>A control-change message, a status test for control change, and an armed session.\<close>

definition ccMessage :: MIDIMessageEvent where
  "ccMessage = \<lparr>msg_status = 176, msg_cc = 10, msg_value = 64, msg_target = Some ''dev1''\<rparr>"

definition statusIsControlChange :: "MIDIMessageEvent \<Rightarrow> bool" where
  "statusIsControlChange m \<longleftrightarrow> msg_status m div 16 = 11"

definition armedApp :: App where
  "armedApp = exampleApp\<lparr>midiLearnTarget :=
     Some \<lparr>pluginKey = ''comp'', paramName = ''ratio'', minVal = 1, maxVal = 20\<rparr>\<rparr>"

text \<open>An updater function: it returns a partial that raises the mix it is given by 10.\<close>

definition bumpMix :: "settings option \<Rightarrow> settings" where
  "bumpMix prevState =
     (case spread prevState ''mix'' of
        Some (Num v) \<Rightarrow> [''mix'' \<mapsto> Num (v + 10)]
      | _ \<Rightarrow> Map.empty)"

text \<open>A message from an unmapped controller, and a sequence of link operations.\<close>

definition otherMessage :: MIDIMessageEvent where
  "otherMessage = \<lparr>msg_status = 176, msg_cc = 7, msg_value = 100, msg_target = Some ''dev2''\<rparr>"

definition exampleOps :: "linkOp list" where
  "exampleOps =
     [AddLink \<lparr>link_from = ''eq'', link_to = ''reverb''\<rparr>,
      AddLink \<lparr>link_from = ''delay'', link_to = ''reverb''\<rparr>,
      RemoveLink \<lparr>link_from = ''delay'', link_to = ''comp''\<rparr>,
      AddLink \<lparr>link_from = ''eq'', link_to = ''comp''\<rparr>]"

text \<open>
  Events in which no transient occurs: frames whose signal carries no transient and whose
  animation intensity lies in 0--100, timer callbacks, passing time and settings updates.
  \<open>frameCount\<close> counts the frames of a sequence.
\<close>

definition calm :: "event \<Rightarrow> bool" where
  "calm ev =
     (case ev of
        Frame audioSignal globalSettings extraMood rnd \<Rightarrow>
          \<not> sig_transients audioSignal \<and>
          0 \<le> animationIntensity globalSettings \<and> animationIntensity globalSettings \<le> 100
      | Fire h rnd \<Rightarrow> True
      | Elapse dt \<Rightarrow> True
      | SetSettings v \<Rightarrow> True)"

fun frameCount :: "event list \<Rightarrow> nat" where
  "frameCount [] = 0"
| "frameCount (Frame audioSignal globalSettings extraMood rnd # evs) = Suc (frameCount evs)"
| "frameCount (ev # evs) = frameCount evs"

text \<open>Example settings, draws, particles and bridges.\<close>

definition verbSettings :: MixxVerbSettings where
  "verbSettings = \<lparr>v_size = 50, v_predelay = 150, v_mix = 50, v_output = 80\<rparr>"

definition lowSettings :: GlobalSettings where
  "lowSettings = \<lparr>animationIntensity = 50, visualizerComplexity = ''low''\<rparr>"

definition halfDraws :: "nat \<Rightarrow> real" where
  "halfDraws n = 1 / 2"

definition someParticle :: Particle where
  "someParticle =
     \<lparr>p_id = 1, p_x = 0, p_y = 0, p_z = 0, p_opacity = 3 / 4, p_size = 2, p_spawnTime = 1,
      p_life = 5 / 4, p_color = 195\<rparr>"

definition burst50 :: BurstClosure where
  "burst50 = \<lparr>b_complexity = ''low'', b_normalizedMix = 1 / 2, b_now = 1, b_size = 50, b_baseHue = 195\<rparr>"

definition crowdedBridge :: Bridge where
  "crowdedBridge =
     (newBridge verbSettings)
       \<lparr>particles := replicate 290 someParticle,
        timers := [\<lparr>t_handle = 1, t_due = 0, t_callback = Burst burst50\<rparr>],
        nextHandle := 2\<rparr>"

text \<open>
  A bridge with a fresh particle, one about to outlive its lifetime and a pending pulse
  reset; a frame without transient; the pulse reset followed by 1000 such frames.
\<close>

definition agedParticle :: Particle where
  "agedParticle = someParticle\<lparr>p_id := 2, p_z := 1249 / 1000\<rparr>"

definition decayingBridge :: Bridge where
  "decayingBridge =
     (newBridge verbSettings)
       \<lparr>particles := [someParticle, agedParticle],
        pulseTimeout := Some 1,
        timers := [\<lparr>t_handle = 1, t_due = 100, t_callback = PulseOff\<rparr>],
        nextHandle := 2\<rparr>"

definition quietFrame :: event where
  "quietFrame = Frame \<lparr>sig_time = 0, sig_transients = False\<rparr> lowSettings None halfDraws"

definition decayEvents :: "event list" where
  "decayEvents = Elapse 100 # Fire 1 halfDraws # replicate 1000 quietFrame"

text \<open>
  A frame observes a transient when the signal carries the flag more than 0.1 after the
  last observed one. \<open>clearedPulse\<close> is the timer queue after the pulse timer held in
  \<open>pulseTimeout\<close> has been cleared, \<open>burstOf\<close> the closure of the burst callback that the
  frame schedules, \<open>burstSizes\<close> the particle counts of the pending bursts.
\<close>

definition accepted :: "AudioSignal \<Rightarrow> Bridge \<Rightarrow> bool" where
  "accepted audioSignal b \<longleftrightarrow>
     sig_transients audioSignal \<and> sig_time audioSignal > lastTransientTime b + 0.1"

definition clearedPulse :: "Bridge \<Rightarrow> Timer list" where
  "clearedPulse b =
     (case pulseTimeout b of
        None \<Rightarrow> timers b
      | Some h \<Rightarrow> if h \<noteq> 0 then filter (\<lambda>t. t_handle t \<noteq> h) (timers b) else timers b)"

definition burstOf :: "AudioSignal \<Rightarrow> GlobalSettings \<Rightarrow> string option \<Rightarrow> Bridge \<Rightarrow> BurstClosure" where
  "burstOf audioSignal globalSettings extraMood b =
     \<lparr>b_complexity = visualizerComplexity globalSettings,
      b_normalizedMix = v_mix (settings b) / 100,
      b_now = sig_time audioSignal,
      b_size = v_size (settings b),
      b_baseHue = baseHueOf extraMood\<rparr>"

definition burstSizes :: "Timer list \<Rightarrow> int list" where
  "burstSizes ts = map (\<lambda>c. particleCount (b_complexity c) (b_normalizedMix c)) (pendingBursts ts)"

text \<open>Settings with a mix below the threshold and with no mix, and a signal with a transient.\<close>

definition faintSettings :: MixxVerbSettings where
  "faintSettings = \<lparr>v_size = 50, v_predelay = 150, v_mix = 1 / 2, v_output = 80\<rparr>"

definition drySettings :: MixxVerbSettings where
  "drySettings = \<lparr>v_size = 50, v_predelay = 150, v_mix = 0, v_output = 80\<rparr>"

definition transientAt :: "real \<Rightarrow> AudioSignal" where
  "transientAt t = \<lparr>sig_time = t, sig_transients = True\<rparr>"

text \<open>
  What holds of the timer queue of every bridge that started as a new one: handles are
  positive, distinct and below \<open>nextHandle\<close>, and the handle kept in \<open>pulseTimeout\<close>, when
  it is still pending, belongs to a pulse reset.
\<close>

definition hostOk :: "Bridge \<Rightarrow> bool" where
  "hostOk b \<longleftrightarrow>
     0 < nextHandle b \<and> distinct (map t_handle (timers b)) \<and>
     (\<forall>t\<in>set (timers b). t_handle t < nextHandle b) \<and>
     (\<forall>h. pulseTimeout b = Some h \<longrightarrow>
        0 < h \<and> h < nextHandle b \<and>
        (\<forall>t\<in>set (timers b). t_handle t = h \<longrightarrow> t_callback t = PulseOff))"

text \<open>
  A scenario: predelay 150 ms and mix 50. A transient at signal time 1 (wall clock
  1000 ms) schedules the pulse reset (handle 1, due at 1100 ms) and a burst (handle 2, due
  at 1150 ms). The pulse reset runs at 1100 ms. In one continuation a second transient
  arrives at signal time 1.11 (wall clock 1110 ms) and 40 ms pass; in the other no
  transient follows, and a frame is drawn at 1150 ms.
\<close>

definition firstBurst :: Timer where
  "firstBurst = \<lparr>t_handle = 2, t_due = 1150, t_callback = Burst burst50\<rparr>"

definition transientFrame :: "real \<Rightarrow> event" where
  "transientFrame t = Frame (transientAt t) lowSettings None halfDraws"

definition afterFirstTransient :: Bridge where
  "afterFirstTransient = run [Elapse 1000, transientFrame 1] (newBridge verbSettings)"

definition secondBurst :: Timer where
  "secondBurst =
     \<lparr>t_handle = 4, t_due = 1260,
      t_callback = Burst \<lparr>b_complexity = ''low'', b_normalizedMix = 1 / 2, b_now = 111 / 100,
                          b_size = 50, b_baseHue = 195\<rparr>\<rparr>"

definition beforeSecondTransient :: Bridge where
  "beforeSecondTransient = run [Elapse 100, Fire 1 halfDraws, Elapse 10] afterFirstTransient"

definition afterSecondTransient :: Bridge where
  "afterSecondTransient = run [transientFrame (111 / 100), Elapse 40] beforeSecondTransient"

definition noSecondTransient :: Bridge where
  "noSecondTransient = run [Elapse 100, Fire 1 halfDraws, Elapse 50, quietFrame] afterFirstTransient"

section \<open>Parameter store\<close>

lemma hpsc_fields:
  "handlePluginStateChange A ns s =
     s\<lparr>settingsObjs := (settingsObjs s)(nextAddr s \<mapsto> spread (settingsOf s A) ++ partialOf ns (settingsOf s A)),
       statesObjs := (statesObjs s)(Suc (nextAddr s) \<mapsto> (currentStates s)(A \<mapsto> nextAddr s)),
       nextAddr := Suc (Suc (nextAddr s)),
       pluginStates := Suc (nextAddr s)\<rparr>"
  by (simp add: handlePluginStateChange_def newSettingsObj_def newStatesObj_def Let_def settingsOf_def refOf_def)

lemma hpsc_settingsOf_same:
  "settingsOf (handlePluginStateChange A ns s) A = Some (spread (settingsOf s A) ++ partialOf ns (settingsOf s A))"
  by (simp add: hpsc_fields settingsOf_def refOf_def currentStates_def)

lemma hpsc_refOf_other:
  "B \<noteq> A \<Longrightarrow> refOf (handlePluginStateChange A ns s) B = refOf s B"
  by (simp add: hpsc_fields refOf_def currentStates_def)

lemma refOf_below:
  assumes "allocated s" "refOf s B = Some a"
  shows "a < nextAddr s"
  using assms by (auto simp: allocated_def refOf_def currentStates_def split: option.splits)

lemma hpsc_settingsOf_other:
  assumes "allocated s" "B \<noteq> A"
  shows "settingsOf (handlePluginStateChange A ns s) B = settingsOf s B"
proof (cases "refOf s B")
  case None
  then show ?thesis using assms(2) by (simp add: settingsOf_def hpsc_refOf_other)
next
  case (Some a)
  then have "a < nextAddr s" using assms(1) by (rule refOf_below[rotated])
  then show ?thesis using Some assms(2)
    by (simp add: settingsOf_def hpsc_refOf_other) (simp add: hpsc_fields)
qed

lemma hpsc_allocated: "allocated s \<Longrightarrow> allocated (handlePluginStateChange A ns s)"
  unfolding allocated_def hpsc_fields
  by (auto simp: currentStates_def less_Suc_eq split: option.splits if_splits)

lemma hpsc_old_objects:
  "a < nextAddr s \<Longrightarrow>
     settingsObjs (handlePluginStateChange A ns s) a = settingsObjs s a \<and>
     statesObjs (handlePluginStateChange A ns s) a = statesObjs s a"
  by (simp add: hpsc_fields)

lemma hpsc_new_reference:
  "allocated s \<Longrightarrow> pluginStates (handlePluginStateChange A ns s) \<noteq> pluginStates s"
  by (simp add: hpsc_fields allocated_def)

lemma hpsc_rest:
  "midiMappings (handlePluginStateChange A ns s) = midiMappings s \<and>
   midiLearnTarget (handlePluginStateChange A ns s) = midiLearnTarget s \<and>
   presets (handlePluginStateChange A ns s) = presets s \<and>
   sidechainLinks (handlePluginStateChange A ns s) = sidechainLinks s"
  by (simp add: hpsc_fields)

lemma hpsc_fold_other:
  assumes "allocated s" "B \<noteq> A"
  shows "refOf (fold (handlePluginStateChange A) nss s) B = refOf s B \<and>
         settingsOf (fold (handlePluginStateChange A) nss s) B = settingsOf s B"
  using assms(1)
proof (induction nss arbitrary: s)
  case Nil
  then show ?case by simp
next
  case (Cons ns nss)
  from Cons.prems have "allocated (handlePluginStateChange A ns s)" by (rule hpsc_allocated)
  from Cons.IH[OF this] show ?case
    using Cons.prems assms(2) by (simp add: hpsc_refOf_other hpsc_settingsOf_other)
qed

text \<open>
  Claim C1. In a store that satisfies the allocator invariant, a call of
  \<open>handlePluginStateChange A\<close> with a partial object \<open>p\<close> leaves the settings of \<open>A\<close> as the
  shallow merge of its previous settings with \<open>p\<close>, and a call with an updater function
  \<open>f\<close> leaves them as the shallow merge of the previous settings with the partial that \<open>f\<close>
  returns on them. For either kind of argument \<open>ns\<close>, every other key \<open>B\<close> keeps its
  reference and its settings; the mapping object is a new one; every object that existed
  before, the previous mapping object included, is untouched; and the invariant holds
  again, so that the statement applies to every call of a sequence: after any sequence of
  updates of \<open>A\<close> every other key has the reference and the settings it had.
\<close>

theorem handlePluginStateChange_frame:
  assumes "allocated s"
  shows "settingsOf (handlePluginStateChange A (Partial p) s) A
           = Some (spread (settingsOf s A) ++ p) \<and>
         settingsOf (handlePluginStateChange A (Updater f) s) A
           = Some (spread (settingsOf s A) ++ f (settingsOf s A)) \<and>
         (\<forall>B. B \<noteq> A \<longrightarrow>
            refOf (handlePluginStateChange A ns s) B = refOf s B \<and>
            settingsOf (handlePluginStateChange A ns s) B = settingsOf s B) \<and>
         pluginStates (handlePluginStateChange A ns s) \<noteq> pluginStates s \<and>
         (\<forall>a. a < nextAddr s \<longrightarrow>
            settingsObjs (handlePluginStateChange A ns s) a = settingsObjs s a \<and>
            statesObjs (handlePluginStateChange A ns s) a = statesObjs s a) \<and>
         allocated (handlePluginStateChange A ns s) \<and>
         (\<forall>B. B \<noteq> A \<longrightarrow>
            refOf (fold (handlePluginStateChange A) nss s) B = refOf s B \<and>
            settingsOf (fold (handlePluginStateChange A) nss s) B = settingsOf s B)"
proof (intro conjI allI impI)
  show "settingsOf (handlePluginStateChange A (Partial p) s) A
          = Some (spread (settingsOf s A) ++ p)"
    by (simp add: hpsc_settingsOf_same partialOf_def)
  show "settingsOf (handlePluginStateChange A (Updater f) s) A
          = Some (spread (settingsOf s A) ++ f (settingsOf s A))"
    by (simp add: hpsc_settingsOf_same partialOf_def)
  show "pluginStates (handlePluginStateChange A ns s) \<noteq> pluginStates s"
    using assms by (rule hpsc_new_reference)
  show "allocated (handlePluginStateChange A ns s)"
    using assms by (rule hpsc_allocated)
next
  fix B assume "B \<noteq> A"
  then show "refOf (handlePluginStateChange A ns s) B = refOf s B"
    by (rule hpsc_refOf_other)
  from assms \<open>B \<noteq> A\<close> show "settingsOf (handlePluginStateChange A ns s) B = settingsOf s B"
    by (rule hpsc_settingsOf_other)
next
  fix a assume "a < nextAddr s"
  then show "settingsObjs (handlePluginStateChange A ns s) a = settingsObjs s a"
    and "statesObjs (handlePluginStateChange A ns s) a = statesObjs s a"
    by (simp_all add: hpsc_old_objects)
next
  fix B assume "B \<noteq> A"
  with assms show "refOf (fold (handlePluginStateChange A) nss s) B = refOf s B"
    and "settingsOf (fold (handlePluginStateChange A) nss s) B = settingsOf s B"
    by (simp_all add: hpsc_fold_other)
qed

lemma exampleApp_allocated: "allocated exampleApp"
  by (auto simp: allocated_def exampleApp_def split: if_splits)

lemma exampleApp_reads:
  "settingsOf exampleApp ''reverb'' = Some [''mix'' \<mapsto> Num 30, ''size'' \<mapsto> Num 50]"
  "settingsOf exampleApp ''comp'' = Some [''ratio'' \<mapsto> Num 4, ''sidechainActive'' \<mapsto> Flag True]"
  "refOf exampleApp ''comp'' = Some 1"
  "refOf exampleApp ''reverb'' = Some 0"
  by (simp_all add: settingsOf_def refOf_def currentStates_def exampleApp_def)

lemma bumpMix_reverb: "bumpMix (settingsOf exampleApp ''reverb'') = [''mix'' \<mapsto> Num 40]"
  by (simp add: bumpMix_def exampleApp_reads spread_def)

text \<open>
  The theorem at the example session, where the mix of the reverb is 30: the partial
  object sets it to 75, and the updater, which adds 10 to the mix it is given, to 40. The
  call with the updater leaves the compressor, the old mapping object and its address
  alone.
\<close>

theorem handlePluginStateChange_frame_witness:
  "allocated exampleApp \<and>
   settingsOf (handlePluginStateChange ''reverb'' (Partial [''mix'' \<mapsto> Num 75]) exampleApp) ''reverb''
     = Some [''size'' \<mapsto> Num 50, ''mix'' \<mapsto> Num 75] \<and>
   settingsOf (handlePluginStateChange ''reverb'' (Updater bumpMix) exampleApp) ''reverb'' = Some [''size'' \<mapsto> Num 50, ''mix'' \<mapsto> Num 40] \<and>
   refOf (handlePluginStateChange ''reverb'' (Updater bumpMix) exampleApp) ''comp'' = Some 1 \<and>
   settingsOf (handlePluginStateChange ''reverb'' (Updater bumpMix) exampleApp) ''comp'' = Some [''ratio'' \<mapsto> Num 4, ''sidechainActive'' \<mapsto> Flag True] \<and>
   pluginStates (handlePluginStateChange ''reverb'' (Updater bumpMix) exampleApp) \<noteq> 2 \<and>
   statesObjs (handlePluginStateChange ''reverb'' (Updater bumpMix) exampleApp) 2 = Some [''reverb'' \<mapsto> 0, ''comp'' \<mapsto> 1]"
proof -
  note t = handlePluginStateChange_frame[OF exampleApp_allocated, where A = "''reverb''"
      and p = "[''mix'' \<mapsto> Num 75]" and f = bumpMix and ns = "Updater bumpMix"]
  note t1 = t[THEN conjunct1]
  note tu = t[THEN conjunct2, THEN conjunct1]
  note t2 = t[THEN conjunct2, THEN conjunct2, THEN conjunct1, rule_format, of "''comp''"]
  note t3 = t[THEN conjunct2, THEN conjunct2, THEN conjunct2, THEN conjunct1]
  note t4 = t[THEN conjunct2, THEN conjunct2, THEN conjunct2, THEN conjunct2, THEN conjunct1,
      rule_format, of 2]
  have p: "pluginStates exampleApp = 2" "statesObjs exampleApp 2 = Some [''reverb'' \<mapsto> 0, ''comp'' \<mapsto> 1]"
    "nextAddr exampleApp = 3"
    by (simp_all add: exampleApp_def)
  have "settingsOf (handlePluginStateChange ''reverb'' (Partial [''mix'' \<mapsto> Num 75]) exampleApp) ''reverb''
     = Some [''size'' \<mapsto> Num 50, ''mix'' \<mapsto> Num 75]"
    using t1 by (simp add: exampleApp_reads spread_def)
  moreover have "settingsOf (handlePluginStateChange ''reverb'' (Updater bumpMix) exampleApp) ''reverb'' = Some [''size'' \<mapsto> Num 50, ''mix'' \<mapsto> Num 40]"
    using tu unfolding bumpMix_reverb by (simp add: exampleApp_reads spread_def)
  moreover have "refOf (handlePluginStateChange ''reverb'' (Updater bumpMix) exampleApp) ''comp'' = Some 1"
    using t2 by (simp add: exampleApp_reads)
  moreover have "settingsOf (handlePluginStateChange ''reverb'' (Updater bumpMix) exampleApp) ''comp'' = Some [''ratio'' \<mapsto> Num 4, ''sidechainActive'' \<mapsto> Flag True]"
    using t2 by (simp add: exampleApp_reads)
  moreover have "pluginStates (handlePluginStateChange ''reverb'' (Updater bumpMix) exampleApp) \<noteq> 2"
    using t3 by (simp add: p)
  moreover have "statesObjs (handlePluginStateChange ''reverb'' (Updater bumpMix) exampleApp) 2 = Some [''reverb'' \<mapsto> 0, ''comp'' \<mapsto> 1]"
    using t4 by (simp add: p)
  ultimately show ?thesis using exampleApp_allocated by blast
qed

section \<open>MIDI mapping layer: applying a mapping\<close>

lemma midi_idle_mapped:
  assumes "midiLearnTarget s = None" "isControlChange message" "msg_target message = Some deviceId"
    "midiMappings s (mappingKey deviceId (msg_cc message)) = Some m"
  shows "handleMidiMessage isControlChange message s =
           handlePluginStateChange (pluginKey m)
             (Updater (\<lambda>prevState. (spread prevState)(paramName m \<mapsto>
                Num (minVal m + (real (msg_value message) / 127) * (maxVal m - minVal m)))))
             s"
  using assms by (simp add: handleMidiMessage_def Let_def)

lemma midi_idle_unmapped:
  assumes "midiLearnTarget s = None" "msg_target message = Some deviceId"
    "midiMappings s (mappingKey deviceId (msg_cc message)) = None"
  shows "handleMidiMessage isControlChange message s = s"
  using assms by (simp add: handleMidiMessage_def Let_def)

lemma merge_self: "m ++ m = m"
  by (rule ext) (simp add: map_add_def split: option.splits)

lemma scaled_64: "\<bar>(0::real) + (real 64 / 127) * (100 - 0) - 50.4\<bar> < 0.01"
  by simp

text \<open>
  Claim C2. While no learn target is armed, a control-change message from a device is
  looked up under \<open>mappingKey deviceId cc\<close>. If a mapping \<open>m\<close> is recorded there, the
  parameter \<open>paramName m\<close> of the plugin \<open>pluginKey m\<close> becomes
  \<open>minVal m + (value / 127) * (maxVal m - minVal m)\<close>, the other parameters of that plugin
  and every other plugin (reference and settings) stay as they were, and so do mappings,
  learn target, presets and links; with range 0 to 100 and value 64 the parameter is
  within 0.01 of 50.4. If no mapping is recorded, the state is returned unchanged. The
  statement holds for every value byte, in particular for values from 0 to 127.
\<close>

theorem midi_idle_applies_mapping:
  assumes "allocated s" "midiLearnTarget s = None" "isControlChange message"
    "msg_target message = Some deviceId"
  shows "(\<forall>m. midiMappings s (mappingKey deviceId (msg_cc message)) = Some m \<longrightarrow>
            (let s' = handleMidiMessage isControlChange message s;
                 scaledValue = minVal m + (real (msg_value message) / 127) * (maxVal m - minVal m)
             in settingsOf s' (pluginKey m)
                  = Some ((spread (settingsOf s (pluginKey m)))(paramName m \<mapsto> Num scaledValue)) \<and>
                paramOf s' (pluginKey m) (paramName m) = Some (Num scaledValue) \<and>
                (\<forall>B. B \<noteq> pluginKey m \<longrightarrow> refOf s' B = refOf s B \<and> settingsOf s' B = settingsOf s B) \<and>
                midiMappings s' = midiMappings s \<and> midiLearnTarget s' = None \<and>
                presets s' = presets s \<and> sidechainLinks s' = sidechainLinks s \<and>
                (minVal m = 0 \<and> maxVal m = 100 \<and> msg_value message = 64 \<longrightarrow>
                   (\<exists>v. paramOf s' (pluginKey m) (paramName m) = Some (Num v) \<and> \<bar>v - 50.4\<bar> < 0.01)))) \<and>
         (midiMappings s (mappingKey deviceId (msg_cc message)) = None \<longrightarrow>
            handleMidiMessage isControlChange message s = s)"
proof (intro conjI allI impI)
  fix m assume m: "midiMappings s (mappingKey deviceId (msg_cc message)) = Some m"
  define v where "v = minVal m + (real (msg_value message) / 127) * (maxVal m - minVal m)"
  define s' where "s' = handleMidiMessage isControlChange message s"
  have eq: "s' = handlePluginStateChange (pluginKey m)
             (Updater (\<lambda>prevState. (spread prevState)(paramName m \<mapsto> Num v))) s"
    unfolding s'_def v_def using assms(2,3,4) m by (rule midi_idle_mapped)
  have a: "settingsOf s' (pluginKey m) = Some ((spread (settingsOf s (pluginKey m)))(paramName m \<mapsto> Num v))"
    by (simp add: eq hpsc_settingsOf_same partialOf_def merge_self)
  then have b: "paramOf s' (pluginKey m) (paramName m) = Some (Num v)"
    by (simp add: paramOf_def)
  have c: "\<forall>B. B \<noteq> pluginKey m \<longrightarrow> refOf s' B = refOf s B \<and> settingsOf s' B = settingsOf s B"
    using assms(1) by (simp add: eq hpsc_refOf_other hpsc_settingsOf_other)
  have d: "midiMappings s' = midiMappings s \<and> midiLearnTarget s' = None \<and>
           presets s' = presets s \<and> sidechainLinks s' = sidechainLinks s"
    using assms(2) by (simp add: eq hpsc_rest)
  have e: "minVal m = 0 \<and> maxVal m = 100 \<and> msg_value message = 64 \<longrightarrow>
             (\<exists>v. paramOf s' (pluginKey m) (paramName m) = Some (Num v) \<and> \<bar>v - 50.4\<bar> < 0.01)"
  proof
    assume h: "minVal m = 0 \<and> maxVal m = 100 \<and> msg_value message = 64"
    then have "\<bar>v - 50.4\<bar> < 0.01" unfolding v_def by simp
    with b show "\<exists>v. paramOf s' (pluginKey m) (paramName m) = Some (Num v) \<and> \<bar>v - 50.4\<bar> < 0.01"
      by blast
  qed
  show "let s' = handleMidiMessage isControlChange message s;
            scaledValue = minVal m + (real (msg_value message) / 127) * (maxVal m - minVal m)
        in settingsOf s' (pluginKey m)
             = Some ((spread (settingsOf s (pluginKey m)))(paramName m \<mapsto> Num scaledValue)) \<and>
           paramOf s' (pluginKey m) (paramName m) = Some (Num scaledValue) \<and>
           (\<forall>B. B \<noteq> pluginKey m \<longrightarrow> refOf s' B = refOf s B \<and> settingsOf s' B = settingsOf s B) \<and>
           midiMappings s' = midiMappings s \<and> midiLearnTarget s' = None \<and>
           presets s' = presets s \<and> sidechainLinks s' = sidechainLinks s \<and>
           (minVal m = 0 \<and> maxVal m = 100 \<and> msg_value message = 64 \<longrightarrow>
              (\<exists>v. paramOf s' (pluginKey m) (paramName m) = Some (Num v) \<and> \<bar>v - 50.4\<bar> < 0.01))"
    unfolding Let_def s'_def[symmetric] v_def[symmetric]
    using a b c d e by (intro conjI) simp_all
next
  assume "midiMappings s (mappingKey deviceId (msg_cc message)) = None"
  with assms(2,4) show "handleMidiMessage isControlChange message s = s"
    by (rule midi_idle_unmapped)
qed

lemma ccMessage_facts:
  "statusIsControlChange ccMessage" "msg_target ccMessage = Some ''dev1''"
  "msg_cc ccMessage = 10" "msg_value ccMessage = 64"
  by (simp_all add: ccMessage_def statusIsControlChange_def)

lemma exampleApp_midi:
  "midiLearnTarget exampleApp = None"
  "midiMappings exampleApp (mappingKey ''dev1'' 10)
     = Some \<lparr>pluginKey = ''reverb'', paramName = ''mix'', minVal = 0, maxVal = 100\<rparr>"
  by (simp_all add: exampleApp_def)

text \<open>
  The example of the specification: mapping (dev1, 10) to (reverb, mix, 0, 100) and the
  message (dev1, cc 10, value 64) give mix = 6400/127, which is about 50.39.
\<close>

theorem midi_idle_applies_mapping_witness:
  "allocated exampleApp \<and> midiLearnTarget exampleApp = None \<and> statusIsControlChange ccMessage \<and>
   msg_target ccMessage = Some ''dev1'' \<and>
   paramOf (handleMidiMessage statusIsControlChange ccMessage exampleApp) ''reverb'' ''mix''
     = Some (Num (6400 / 127)) \<and>
   settingsOf (handleMidiMessage statusIsControlChange ccMessage exampleApp) ''comp''
     = Some [''ratio'' \<mapsto> Num 4, ''sidechainActive'' \<mapsto> Flag True] \<and>
   \<bar>(6400 / 127 :: real) - 50.4\<bar> < 0.01"
proof -
  note t = midi_idle_applies_mapping[where s = exampleApp and isControlChange = statusIsControlChange
        and message = ccMessage and deviceId = "''dev1''",
      OF exampleApp_allocated exampleApp_midi(1) ccMessage_facts(1,2),
      THEN conjunct1, rule_format, unfolded ccMessage_facts(3), OF exampleApp_midi(2)]
  have p: "paramOf (handleMidiMessage statusIsControlChange ccMessage exampleApp) ''reverb'' ''mix''
     = Some (Num (6400 / 127))"
    using t by (simp add: Let_def ccMessage_facts)
  have "''comp'' \<noteq> ''reverb''" by simp
  then have q: "settingsOf (handleMidiMessage statusIsControlChange ccMessage exampleApp) ''comp''
     = Some [''ratio'' \<mapsto> Num 4, ''sidechainActive'' \<mapsto> Flag True]"
    using t by (simp add: Let_def exampleApp_reads)
  show ?thesis
    using p q exampleApp_allocated exampleApp_midi(1) ccMessage_facts(1,2) by simp
qed

section \<open>MIDI mapping layer: the mapping key\<close>

text \<open>
  The key is the device id, a dash and the decimal controller number. The digits contain
  no dash, so the last dash of a key separates its two parts: distinct pairs of device id
  and controller number have distinct keys.
\<close>

lemma digitChar_inj: "d < 10 \<Longrightarrow> e < 10 \<Longrightarrow> digitChar d = digitChar e \<longleftrightarrow> d = e"
  unfolding digitChar_def by (rule nth_eq_iff_index_eq) simp_all

lemma digitChar_not_dash: "d < 10 \<Longrightarrow> digitChar d \<noteq> CHR ''-''"
proof -
  assume "d < 10"
  then have "digitChar d \<in> set ''0123456789''" unfolding digitChar_def by (intro nth_mem) simp
  then show ?thesis by auto
qed

lemma showNat_not_empty: "showNat n \<noteq> []"
  by (subst showNat.simps) simp

lemma showNat_no_dash: "CHR ''-'' \<notin> set (showNat n)"
proof (induction n rule: showNat.induct)
  case (1 n)
  show ?case
  proof (cases "n < 10")
    case True
    then show ?thesis using digitChar_not_dash[of n] by (subst showNat.simps) auto
  next
    case False
    have "n mod 10 < 10" by simp
    from digitChar_not_dash[OF this] "1.IH"[OF False] False
    show ?thesis by (subst showNat.simps) auto
  qed
qed

lemma showNat_inj: "showNat n = showNat m \<Longrightarrow> n = m"
proof (induction n arbitrary: m rule: showNat.induct)
  case (1 n)
  show ?case
  proof (cases "n < 10")
    case n: True
    show ?thesis
    proof (cases "m < 10")
      case True
      with n "1.prems" show ?thesis
        by (simp add: showNat.simps[of n] showNat.simps[of m] digitChar_inj)
    next
      case False
      with n "1.prems" showNat_not_empty[of "m div 10"] show ?thesis
        by (simp add: showNat.simps[of n] showNat.simps[of m])
    qed
  next
    case n: False
    show ?thesis
    proof (cases "m < 10")
      case True
      with n "1.prems" showNat_not_empty[of "n div 10"] show ?thesis
        by (simp add: showNat.simps[of n] showNat.simps[of m])
    next
      case False
      with n "1.prems" have "showNat (n div 10) = showNat (m div 10)"
        and d: "digitChar (n mod 10) = digitChar (m mod 10)"
        by (simp_all add: showNat.simps[of n] showNat.simps[of m])
      from "1.IH"[OF n this(1)] have "n div 10 = m div 10" .
      moreover from d have "n mod 10 = m mod 10" by (simp add: digitChar_inj)
      ultimately have "n div 10 * 10 + n mod 10 = m div 10 * 10 + m mod 10" by simp
      then show ?thesis by simp
    qed
  qed
qed

lemma split_at_first:
  "x \<notin> set xs \<Longrightarrow> x \<notin> set xs' \<Longrightarrow> xs @ x # ys = xs' @ x # ys' \<Longrightarrow> xs = xs' \<and> ys = ys'"
proof (induction xs arbitrary: xs')
  case Nil
  then show ?case by (cases xs') auto
next
  case (Cons a xs)
  then show ?case by (cases xs') auto
qed

lemma mappingKey_inj:
  "mappingKey d c = mappingKey d' c' \<longleftrightarrow> d = d' \<and> c = c'"
proof
  assume "mappingKey d c = mappingKey d' c'"
  then have e: "rev (mappingKey d c) = rev (mappingKey d' c')" by (rule arg_cong)
  have r: "rev (mappingKey e k) = rev (showNat k) @ CHR ''-'' # rev e" for e k
    by (simp add: mappingKey_def)
  from e have q: "rev (showNat c) @ CHR ''-'' # rev d = rev (showNat c') @ CHR ''-'' # rev d'"
    unfolding r .
  have n: "CHR ''-'' \<notin> set (rev (showNat c))" "CHR ''-'' \<notin> set (rev (showNat c'))"
    unfolding set_rev by (rule showNat_no_dash)+
  note c = split_at_first[OF n q]
  from c[THEN conjunct1] have "showNat c = showNat c'" unfolding rev_is_rev_conv .
  then have "c = c'" by (rule showNat_inj)
  moreover from c[THEN conjunct2] have "d = d'" unfolding rev_is_rev_conv .
  ultimately show "d = d' \<and> c = c'" by (intro conjI)
next
  assume "d = d' \<and> c = c'"
  then show "mappingKey d c = mappingKey d' c'" by (elim conjE) (rule arg_cong2)
qed

section \<open>MIDI mapping layer: learn mode\<close>

lemma same_store_same_reads:
  assumes "statesObjs s' = statesObjs s" "pluginStates s' = pluginStates s" "settingsObjs s' = settingsObjs s"
  shows "refOf s' k = refOf s k \<and> settingsOf s' k = settingsOf s k"
  using assms by (simp add: refOf_def settingsOf_def currentStates_def split: option.splits)

text \<open>
  Claim C3. With a learn target \<open>t\<close> armed, a control-change message from a device records
  \<open>t\<close> under \<open>mappingKey deviceId cc\<close>, replacing what was stored there and changing no other
  key, so that the mapping of every other pair of device and controller is as before; the
  learn target becomes idle; the parameter store is untouched: same mapping
  object, same objects, the same reference and settings for every plugin.
\<close>

theorem midi_learn_captures:
  assumes "midiLearnTarget s = Some t" "isControlChange message" "msg_target message = Some deviceId"
  shows "handleMidiMessage isControlChange message s =
           s\<lparr>midiMappings := (midiMappings s)(mappingKey deviceId (msg_cc message) \<mapsto>
                 \<lparr>pluginKey = pluginKey t, paramName = paramName t, minVal = minVal t, maxVal = maxVal t\<rparr>),
             midiLearnTarget := None\<rparr> \<and>
         midiMappings (handleMidiMessage isControlChange message s) (mappingKey deviceId (msg_cc message))
           = Some t \<and>
         (\<forall>k. k \<noteq> mappingKey deviceId (msg_cc message) \<longrightarrow>
            midiMappings (handleMidiMessage isControlChange message s) k = midiMappings s k) \<and>
         midiLearnTarget (handleMidiMessage isControlChange message s) = None \<and>
         pluginStates (handleMidiMessage isControlChange message s) = pluginStates s \<and>
         settingsObjs (handleMidiMessage isControlChange message s) = settingsObjs s \<and>
         statesObjs (handleMidiMessage isControlChange message s) = statesObjs s \<and>
         (\<forall>k. refOf (handleMidiMessage isControlChange message s) k = refOf s k \<and>
              settingsOf (handleMidiMessage isControlChange message s) k = settingsOf s k) \<and>
         (\<forall>d c. d \<noteq> deviceId \<or> c \<noteq> msg_cc message \<longrightarrow>
            midiMappings (handleMidiMessage isControlChange message s) (mappingKey d c)
              = midiMappings s (mappingKey d c))"
proof -
  have eq: "handleMidiMessage isControlChange message s =
           s\<lparr>midiMappings := (midiMappings s)(mappingKey deviceId (msg_cc message) \<mapsto>
                 \<lparr>pluginKey = pluginKey t, paramName = paramName t, minVal = minVal t, maxVal = maxVal t\<rparr>),
             midiLearnTarget := None\<rparr>"
    using assms by (simp add: handleMidiMessage_def Let_def)
  have t: "\<lparr>pluginKey = pluginKey t, paramName = paramName t, minVal = minVal t, maxVal = maxVal t\<rparr> = t"
    by simp
  have r: "refOf (s\<lparr>midiMappings := mm, midiLearnTarget := None\<rparr>) k = refOf s k \<and>
           settingsOf (s\<lparr>midiMappings := mm, midiLearnTarget := None\<rparr>) k = settingsOf s k" for mm k
    by (rule same_store_same_reads) simp_all
  show ?thesis
    unfolding eq t by (simp add: r mappingKey_inj)
qed

lemma armedApp_facts:
  "midiLearnTarget armedApp = Some \<lparr>pluginKey = ''comp'', paramName = ''ratio'', minVal = 1, maxVal = 20\<rparr>"
  "midiMappings armedApp = midiMappings exampleApp"
  by (simp_all add: armedApp_def)

lemma armedApp_settings: "settingsOf armedApp k = settingsOf exampleApp k"
  unfolding armedApp_def by (rule same_store_same_reads[THEN conjunct2]) simp_all

text \<open>
  Armed for (comp, ratio), the message (dev1, cc 10, value 64) replaces the mapping of
  (dev1, 10) and leaves the reverb alone.
\<close>

theorem midi_learn_captures_witness:
  "midiLearnTarget armedApp = Some \<lparr>pluginKey = ''comp'', paramName = ''ratio'', minVal = 1, maxVal = 20\<rparr> \<and>
   statusIsControlChange ccMessage \<and> msg_target ccMessage = Some ''dev1'' \<and>
   midiMappings (handleMidiMessage statusIsControlChange ccMessage armedApp) (mappingKey ''dev1'' 10)
     = Some \<lparr>pluginKey = ''comp'', paramName = ''ratio'', minVal = 1, maxVal = 20\<rparr> \<and>
   midiLearnTarget (handleMidiMessage statusIsControlChange ccMessage armedApp) = None \<and>
   settingsOf (handleMidiMessage statusIsControlChange ccMessage armedApp) ''reverb''
     = Some [''mix'' \<mapsto> Num 30, ''size'' \<mapsto> Num 50] \<and>
   midiMappings (handleMidiMessage statusIsControlChange ccMessage armedApp) (mappingKey ''dev1'' 11)
     = midiMappings armedApp (mappingKey ''dev1'' 11)"
proof -
  note t = midi_learn_captures[where s = armedApp and isControlChange = statusIsControlChange
        and message = ccMessage and deviceId = "''dev1''",
      OF armedApp_facts(1) ccMessage_facts(1,2), unfolded ccMessage_facts(3)]
  note t2 = t[THEN conjunct2, THEN conjunct1]
  note t4 = t[THEN conjunct2, THEN conjunct2, THEN conjunct2, THEN conjunct1]
  note t8 = t[THEN conjunct2, THEN conjunct2, THEN conjunct2, THEN conjunct2, THEN conjunct2,
      THEN conjunct2, THEN conjunct2, THEN conjunct1, rule_format, of "''reverb''", THEN conjunct2]
  have "settingsOf (handleMidiMessage statusIsControlChange ccMessage armedApp) ''reverb''
     = Some [''mix'' \<mapsto> Num 30, ''size'' \<mapsto> Num 50]"
    using t8 by (simp add: armedApp_settings exampleApp_reads)
  moreover have "midiMappings (handleMidiMessage statusIsControlChange ccMessage armedApp) (mappingKey ''dev1'' 11)
     = midiMappings armedApp (mappingKey ''dev1'' 11)"
    using t[THEN conjunct2, THEN conjunct2, THEN conjunct2, THEN conjunct2, THEN conjunct2,
        THEN conjunct2, THEN conjunct2, THEN conjunct2, rule_format, of "''dev1''" 11]
    by simp
  ultimately show ?thesis
    using t2 t4 armedApp_facts(1) ccMessage_facts(1,2) by simp
qed

text \<open>
  Claim C4. With a learn target \<open>t\<close> armed, \<open>handleMidiLearnStart\<close> with the plugin key and
  parameter name of \<open>t\<close> (whatever the range) returns to idle and creates no mapping; with
  a different plugin key or parameter name it replaces the armed target by the new one.
  The target is a single optional slot, so at most one target is armed at any time.
\<close>

theorem learn_toggle:
  assumes "midiLearnTarget s = Some t"
  shows "handleMidiLearnStart (pluginKey t) (paramName t) mn mx s = s\<lparr>midiLearnTarget := None\<rparr> \<and>
         midiLearnTarget (handleMidiLearnStart (pluginKey t) (paramName t) mn mx s) = None \<and>
         midiMappings (handleMidiLearnStart (pluginKey t) (paramName t) mn mx s) = midiMappings s \<and>
         (pk \<noteq> pluginKey t \<or> pn \<noteq> paramName t \<longrightarrow>
            handleMidiLearnStart pk pn mn mx s
              = s\<lparr>midiLearnTarget := Some \<lparr>pluginKey = pk, paramName = pn, minVal = mn, maxVal = mx\<rparr>\<rparr> \<and>
            midiLearnTarget (handleMidiLearnStart pk pn mn mx s)
              = Some \<lparr>pluginKey = pk, paramName = pn, minVal = mn, maxVal = mx\<rparr> \<and>
            midiMappings (handleMidiLearnStart pk pn mn mx s) = midiMappings s)"
proof (intro conjI impI)
  show same: "handleMidiLearnStart (pluginKey t) (paramName t) mn mx s = s\<lparr>midiLearnTarget := None\<rparr>"
    using assms by (simp add: handleMidiLearnStart_def)
  show "midiLearnTarget (handleMidiLearnStart (pluginKey t) (paramName t) mn mx s) = None"
    and "midiMappings (handleMidiLearnStart (pluginKey t) (paramName t) mn mx s) = midiMappings s"
    by (simp_all add: same)
next
  assume "pk \<noteq> pluginKey t \<or> pn \<noteq> paramName t"
  then show other: "handleMidiLearnStart pk pn mn mx s
              = s\<lparr>midiLearnTarget := Some \<lparr>pluginKey = pk, paramName = pn, minVal = mn, maxVal = mx\<rparr>\<rparr>"
    using assms by (simp add: handleMidiLearnStart_def) metis
  show "midiLearnTarget (handleMidiLearnStart pk pn mn mx s)
              = Some \<lparr>pluginKey = pk, paramName = pn, minVal = mn, maxVal = mx\<rparr>"
    and "midiMappings (handleMidiLearnStart pk pn mn mx s) = midiMappings s"
    by (simp_all add: other)
qed

text \<open>Armed for (comp, ratio): arming the same pair again cancels, arming (reverb, mix) replaces.\<close>

theorem learn_toggle_witness:
  "midiLearnTarget armedApp = Some \<lparr>pluginKey = ''comp'', paramName = ''ratio'', minVal = 1, maxVal = 20\<rparr> \<and>
   midiLearnTarget (handleMidiLearnStart ''comp'' ''ratio'' 0 100 armedApp) = None \<and>
   midiMappings (handleMidiLearnStart ''comp'' ''ratio'' 0 100 armedApp) = midiMappings armedApp \<and>
   midiLearnTarget (handleMidiLearnStart ''reverb'' ''mix'' 0 100 armedApp)
     = Some \<lparr>pluginKey = ''reverb'', paramName = ''mix'', minVal = 0, maxVal = 100\<rparr> \<and>
   midiMappings (handleMidiLearnStart ''reverb'' ''mix'' 0 100 armedApp) = midiMappings armedApp"
proof -
  note t = learn_toggle[OF armedApp_facts(1), where mn = 0 and mx = 100 and pk = "''reverb''" and pn = "''mix''"]
  show ?thesis using t armedApp_facts(1) by simp
qed

section \<open>Sidechain routing graph\<close>

lemma list_ex_linksInto:
  "list_ex (\<lambda>link. link_to link = k) links \<longleftrightarrow> linksInto k links \<noteq> []"
  by (simp add: linksInto_def list_ex_iff filter_empty_conv)

lemma addLink_links:
  "sidechainLinks (handleAddLink l s) =
     (if linksInto (link_to l) (sidechainLinks s) = [] then sidechainLinks s @ [l] else sidechainLinks s)"
  by (simp add: handleAddLink_def list_ex_linksInto)

lemma addLink_linked: "linksInto (link_to l) (sidechainLinks s) \<noteq> [] \<Longrightarrow> handleAddLink l s = s"
  by (simp add: handleAddLink_def list_ex_linksInto)

lemma removeLink_links:
  "sidechainLinks (handleRemoveLink canBe l s) =
     filter (\<lambda>link. \<not> (link_from link = link_from l \<and> link_to link = link_to l)) (sidechainLinks s)"
  by (simp add: handleRemoveLink_def Let_def hpsc_rest)

lemma linksInto_empty_iff: "linksInto k links = [] \<longleftrightarrow> k \<notin> set (map link_to links)"
  by (auto simp: linksInto_def filter_empty_conv)

lemma addLink_distinct:
  "distinct (map link_to (sidechainLinks s)) \<Longrightarrow> distinct (map link_to (sidechainLinks (handleAddLink l s)))"
  by (simp add: addLink_links linksInto_empty_iff)

lemma removeLink_distinct:
  "distinct (map link_to (sidechainLinks s)) \<Longrightarrow>
     distinct (map link_to (sidechainLinks (handleRemoveLink canBe l s)))"
  by (simp add: removeLink_links distinct_map_filter)

lemma applyLinkOp_distinct:
  "distinct (map link_to (sidechainLinks s)) \<Longrightarrow>
     distinct (map link_to (sidechainLinks (applyLinkOp canBe op s)))"
  by (cases op) (simp_all add: addLink_distinct removeLink_distinct)

lemma runLinkOps_distinct:
  "distinct (map link_to (sidechainLinks s)) \<Longrightarrow>
     distinct (map link_to (sidechainLinks (runLinkOps canBe ops s)))"
  unfolding runLinkOps_def
  by (induction ops arbitrary: s) (simp_all add: applyLinkOp_distinct)

lemma distinct_linksInto:
  "distinct (map link_to links) \<Longrightarrow> length (linksInto k links) \<le> 1"
proof (induction links)
  case Nil
  then show ?case by (simp add: linksInto_def)
next
  case (Cons l links)
  show ?case
  proof (cases "link_to l = k")
    case True
    with Cons.prems have "k \<notin> set (map link_to links)" by auto
    then have "linksInto k links = []" by (simp add: linksInto_empty_iff)
    with True show ?thesis by (simp add: linksInto_def)
  next
    case False
    with Cons show ?thesis by (simp add: linksInto_def)
  qed
qed

lemma add_twice:
  assumes "linksInto C (sidechainLinks s) = []"
  shows "sidechainLinks (handleAddLink \<lparr>link_from = B, link_to = C\<rparr>
            (handleAddLink \<lparr>link_from = A, link_to = C\<rparr> s))
           = sidechainLinks s @ [\<lparr>link_from = A, link_to = C\<rparr>]"
  using assms by (simp add: addLink_links) (simp add: linksInto_def)

text \<open>
  Claim C5. From a link list in which no two links share their target (the empty list of a
  new session in particular), every sequence of \<open>handleAddLink\<close> and \<open>handleRemoveLink\<close>
  leaves a list in which at most one link points at any given target. \<open>handleAddLink\<close>
  appends the link when no link has its target and returns the state unchanged otherwise,
  so adding A to C and then B to C, when nothing pointed at C, adds A to C only.
\<close>

theorem sidechain_single_source:
  assumes "distinct (map link_to (sidechainLinks s))"
  shows "distinct (map link_to (sidechainLinks (runLinkOps canBeSidechainTarget ops s))) \<and>
         (\<forall>k. length (linksInto k (sidechainLinks (runLinkOps canBeSidechainTarget ops s))) \<le> 1) \<and>
         (linksInto (link_to l) (sidechainLinks s) = [] \<longrightarrow>
            sidechainLinks (handleAddLink l s) = sidechainLinks s @ [l]) \<and>
         (linksInto (link_to l) (sidechainLinks s) \<noteq> [] \<longrightarrow> handleAddLink l s = s) \<and>
         (linksInto C (sidechainLinks s) = [] \<longrightarrow>
            sidechainLinks (handleAddLink \<lparr>link_from = B, link_to = C\<rparr>
               (handleAddLink \<lparr>link_from = A, link_to = C\<rparr> s))
              = sidechainLinks s @ [\<lparr>link_from = A, link_to = C\<rparr>])"
proof (intro conjI allI impI)
  show d: "distinct (map link_to (sidechainLinks (runLinkOps canBeSidechainTarget ops s)))"
    using assms by (rule runLinkOps_distinct)
  show "length (linksInto k (sidechainLinks (runLinkOps canBeSidechainTarget ops s))) \<le> 1" for k
    using d by (rule distinct_linksInto)
next
  assume "linksInto (link_to l) (sidechainLinks s) = []"
  then show "sidechainLinks (handleAddLink l s) = sidechainLinks s @ [l]"
    by (simp add: addLink_links)
next
  assume "linksInto (link_to l) (sidechainLinks s) \<noteq> []"
  then show "handleAddLink l s = s" by (rule addLink_linked)
next
  assume "linksInto C (sidechainLinks s) = []"
  then show "sidechainLinks (handleAddLink \<lparr>link_from = B, link_to = C\<rparr>
               (handleAddLink \<lparr>link_from = A, link_to = C\<rparr> s))
              = sidechainLinks s @ [\<lparr>link_from = A, link_to = C\<rparr>]"
    by (rule add_twice)
qed

lemma exampleApp_links:
  "sidechainLinks exampleApp = [\<lparr>link_from = ''delay'', link_to = ''comp''\<rparr>]"
  by (simp add: exampleApp_def)

lemma exampleOps_run:
  "sidechainLinks (runLinkOps (\<lambda>k. True) exampleOps exampleApp)
     = [\<lparr>link_from = ''eq'', link_to = ''reverb''\<rparr>, \<lparr>link_from = ''eq'', link_to = ''comp''\<rparr>]"
  by (simp add: runLinkOps_def exampleOps_def addLink_links removeLink_links exampleApp_links linksInto_def)

text \<open>Three additions and a removal on the example session, whose list holds delay to comp.\<close>

theorem sidechain_single_source_witness:
  "distinct (map link_to (sidechainLinks exampleApp)) \<and>
   sidechainLinks (runLinkOps (\<lambda>k. True) exampleOps exampleApp)
     = [\<lparr>link_from = ''eq'', link_to = ''reverb''\<rparr>, \<lparr>link_from = ''eq'', link_to = ''comp''\<rparr>] \<and>
   distinct (map link_to (sidechainLinks (runLinkOps (\<lambda>k. True) exampleOps exampleApp))) \<and>
   linksInto ''reverb'' (sidechainLinks exampleApp) = [] \<and>
   sidechainLinks (handleAddLink \<lparr>link_from = ''delay'', link_to = ''reverb''\<rparr>
       (handleAddLink \<lparr>link_from = ''eq'', link_to = ''reverb''\<rparr> exampleApp))
     = [\<lparr>link_from = ''delay'', link_to = ''comp''\<rparr>, \<lparr>link_from = ''eq'', link_to = ''reverb''\<rparr>] \<and>
   linksInto ''comp'' (sidechainLinks exampleApp) \<noteq> [] \<and>
   handleAddLink \<lparr>link_from = ''eq'', link_to = ''comp''\<rparr> exampleApp = exampleApp"
proof -
  have d: "distinct (map link_to (sidechainLinks exampleApp))" by (simp add: exampleApp_links)
  have e: "linksInto ''reverb'' (sidechainLinks exampleApp) = []"
    and n: "linksInto ''comp'' (sidechainLinks exampleApp) \<noteq> []"
    by (simp_all add: exampleApp_links linksInto_def)
  note t = sidechain_single_source[OF d, where canBeSidechainTarget = "\<lambda>k. True" and ops = exampleOps
      and l = "\<lparr>link_from = ''eq'', link_to = ''comp''\<rparr>" and C = "''reverb''" and A = "''eq''"
      and B = "''delay''"]
  show ?thesis using t d e n by (simp add: exampleOps_run exampleApp_links)
qed

section \<open>Failure paths\<close>

lemma loadPreset_missing:
  "find (\<lambda>p. preset_name p = n) (presets s) = None \<Longrightarrow> handleLoadPreset n s = s"
  by (simp add: handleLoadPreset_def)

lemma filter_no_match:
  "\<not> list_ex (\<lambda>link. link_from link = link_from l \<and> link_to link = link_to l) links \<Longrightarrow>
     filter (\<lambda>link. \<not> (link_from link = link_from l \<and> link_to link = link_to l)) links = links"
  by (simp add: list_ex_iff filter_id_conv)

lemma removeLink_no_match:
  assumes "\<not> list_ex (\<lambda>link. link_from link = link_from l \<and> link_to link = link_to l) (sidechainLinks s)"
  shows "handleRemoveLink canBe l s =
           (if canBe (link_to l)
            then handlePluginStateChange (link_to l) (Partial [''sidechainActive'' \<mapsto> Flag False]) s
            else s)"
  unfolding handleRemoveLink_def Let_def filter_no_match[OF assms] by simp

text \<open>
  Claim C6, as the code has it. The state is returned exactly as it was by a
  control-change message without a recorded mapping when no learn target is armed, by
  loading a preset name that does not exist, by adding a link to a target that already
  has one, and by removing a link that is not present when the target cannot be a
  sidechain target. When the target can be a sidechain target, removing a link that is
  not present still runs the parameter store update that sets the target's
  \<open>sidechainActive\<close> to false: links, mappings, learn target and presets are unchanged, and
  in an allocated store so is every other plugin.
\<close>

theorem failure_paths_retain_state:
  "(midiLearnTarget s = None \<and> msg_target message = Some deviceId \<and>
      midiMappings s (mappingKey deviceId (msg_cc message)) = None \<longrightarrow>
        handleMidiMessage isControlChange message s = s) \<and>
   (find (\<lambda>p. preset_name p = n) (presets s) = None \<longrightarrow> handleLoadPreset n s = s) \<and>
   (linksInto (link_to newLink) (sidechainLinks s) \<noteq> [] \<longrightarrow> handleAddLink newLink s = s) \<and>
   (\<not> list_ex (\<lambda>link. link_from link = link_from l \<and> link_to link = link_to l) (sidechainLinks s) \<longrightarrow>
      (\<not> canBeSidechainTarget (link_to l) \<longrightarrow> handleRemoveLink canBeSidechainTarget l s = s) \<and>
      (canBeSidechainTarget (link_to l) \<longrightarrow>
         handleRemoveLink canBeSidechainTarget l s
           = handlePluginStateChange (link_to l) (Partial [''sidechainActive'' \<mapsto> Flag False]) s \<and>
         sidechainLinks (handleRemoveLink canBeSidechainTarget l s) = sidechainLinks s \<and>
         midiMappings (handleRemoveLink canBeSidechainTarget l s) = midiMappings s \<and>
         midiLearnTarget (handleRemoveLink canBeSidechainTarget l s) = midiLearnTarget s \<and>
         presets (handleRemoveLink canBeSidechainTarget l s) = presets s \<and>
         settingsOf (handleRemoveLink canBeSidechainTarget l s) (link_to l)
           = Some ((spread (settingsOf s (link_to l)))(''sidechainActive'' \<mapsto> Flag False)) \<and>
         (allocated s \<longrightarrow>
            (\<forall>B. B \<noteq> link_to l \<longrightarrow>
               refOf (handleRemoveLink canBeSidechainTarget l s) B = refOf s B \<and>
               settingsOf (handleRemoveLink canBeSidechainTarget l s) B = settingsOf s B))))"
proof (intro conjI impI allI)
  assume "midiLearnTarget s = None \<and> msg_target message = Some deviceId \<and>
      midiMappings s (mappingKey deviceId (msg_cc message)) = None"
  then show "handleMidiMessage isControlChange message s = s"
    by (simp add: midi_idle_unmapped)
next
  assume "find (\<lambda>p. preset_name p = n) (presets s) = None"
  then show "handleLoadPreset n s = s" by (rule loadPreset_missing)
next
  assume "linksInto (link_to newLink) (sidechainLinks s) \<noteq> []"
  then show "handleAddLink newLink s = s" by (rule addLink_linked)
next
  assume nm: "\<not> list_ex (\<lambda>link. link_from link = link_from l \<and> link_to link = link_to l) (sidechainLinks s)"
  {
    assume "\<not> canBeSidechainTarget (link_to l)"
    then show "handleRemoveLink canBeSidechainTarget l s = s"
      by (simp add: removeLink_no_match[OF nm])
  }
  assume c: "canBeSidechainTarget (link_to l)"
  then show eq: "handleRemoveLink canBeSidechainTarget l s
           = handlePluginStateChange (link_to l) (Partial [''sidechainActive'' \<mapsto> Flag False]) s"
    by (simp add: removeLink_no_match[OF nm])
  show "sidechainLinks (handleRemoveLink canBeSidechainTarget l s) = sidechainLinks s"
    and "midiMappings (handleRemoveLink canBeSidechainTarget l s) = midiMappings s"
    and "midiLearnTarget (handleRemoveLink canBeSidechainTarget l s) = midiLearnTarget s"
    and "presets (handleRemoveLink canBeSidechainTarget l s) = presets s"
    by (simp_all add: eq hpsc_rest)
  show "settingsOf (handleRemoveLink canBeSidechainTarget l s) (link_to l)
           = Some ((spread (settingsOf s (link_to l)))(''sidechainActive'' \<mapsto> Flag False))"
    by (simp add: eq hpsc_settingsOf_same partialOf_def)
  {
    fix B assume a: "allocated s" and b: "B \<noteq> link_to l"
    from b show "refOf (handleRemoveLink canBeSidechainTarget l s) B = refOf s B"
      by (simp add: eq hpsc_refOf_other)
    from a b show "settingsOf (handleRemoveLink canBeSidechainTarget l s) B = settingsOf s B"
      by (simp add: eq hpsc_settingsOf_other)
  }
qed

lemma exampleApp_unmapped: "midiMappings exampleApp (mappingKey ''dev2'' 7) = None"
  by (simp add: exampleApp_def mappingKey_def)

lemma otherMessage_facts:
  "statusIsControlChange otherMessage" "msg_target otherMessage = Some ''dev2''" "msg_cc otherMessage = 7"
  by (simp_all add: otherMessage_def statusIsControlChange_def)

lemma exampleApp_no_edge:
  "\<not> list_ex (\<lambda>link. link_from link = link_from \<lparr>link_from = ''eq'', link_to = ''comp''\<rparr> \<and>
                       link_to link = link_to \<lparr>link_from = ''eq'', link_to = ''comp''\<rparr>)
       (sidechainLinks exampleApp)"
  by (simp add: exampleApp_links)

text \<open>Each of the failure paths on the example session.\<close>

theorem failure_paths_retain_state_witness:
  "midiLearnTarget exampleApp = None \<and> msg_target otherMessage = Some ''dev2'' \<and>
   midiMappings exampleApp (mappingKey ''dev2'' (msg_cc otherMessage)) = None \<and>
   handleMidiMessage statusIsControlChange otherMessage exampleApp = exampleApp \<and>
   find (\<lambda>p. preset_name p = ''P2'') (presets exampleApp) = None \<and>
   handleLoadPreset ''P2'' exampleApp = exampleApp \<and>
   linksInto ''comp'' (sidechainLinks exampleApp) \<noteq> [] \<and>
   handleAddLink \<lparr>link_from = ''eq'', link_to = ''comp''\<rparr> exampleApp = exampleApp \<and>
   \<not> list_ex (\<lambda>link. link_from link = ''eq'' \<and> link_to link = ''comp'') (sidechainLinks exampleApp) \<and>
   handleRemoveLink (\<lambda>k. False) \<lparr>link_from = ''eq'', link_to = ''comp''\<rparr> exampleApp = exampleApp \<and>
   allocated exampleApp \<and>
   sidechainLinks (handleRemoveLink (\<lambda>k. True) \<lparr>link_from = ''eq'', link_to = ''comp''\<rparr> exampleApp)
     = sidechainLinks exampleApp \<and>
   settingsOf (handleRemoveLink (\<lambda>k. True) \<lparr>link_from = ''eq'', link_to = ''comp''\<rparr> exampleApp) ''comp''
     = Some [''ratio'' \<mapsto> Num 4, ''sidechainActive'' \<mapsto> Flag False] \<and>
   settingsOf (handleRemoveLink (\<lambda>k. True) \<lparr>link_from = ''eq'', link_to = ''comp''\<rparr> exampleApp) ''reverb''
     = Some [''mix'' \<mapsto> Num 30, ''size'' \<mapsto> Num 50]"
proof -
  have p: "find (\<lambda>p. preset_name p = ''P2'') (presets exampleApp) = None"
    by (simp add: exampleApp_def)
  have n: "linksInto ''comp'' (sidechainLinks exampleApp) \<noteq> []"
    by (simp add: exampleApp_links linksInto_def)
  have u: "midiMappings exampleApp (mappingKey ''dev2'' (msg_cc otherMessage)) = None"
    by (simp add: otherMessage_facts exampleApp_unmapped)
  note t = failure_paths_retain_state[where s = exampleApp and message = otherMessage
      and deviceId = "''dev2''" and isControlChange = statusIsControlChange and n = "''P2''"
      and newLink = "\<lparr>link_from = ''eq'', link_to = ''comp''\<rparr>"
      and l = "\<lparr>link_from = ''eq'', link_to = ''comp''\<rparr>"]
  note t1 = t[THEN conjunct1, rule_format, OF conjI[OF exampleApp_midi(1) conjI[OF otherMessage_facts(2) u]]]
  note t2 = t[THEN conjunct2, THEN conjunct1, rule_format, OF p]
  have t3: "handleAddLink \<lparr>link_from = ''eq'', link_to = ''comp''\<rparr> exampleApp = exampleApp"
    using t[THEN conjunct2, THEN conjunct2, THEN conjunct1] n by simp
  note t4 = t[THEN conjunct2, THEN conjunct2, THEN conjunct2, rule_format, OF exampleApp_no_edge]
  have t5: "handleRemoveLink (\<lambda>k. False) \<lparr>link_from = ''eq'', link_to = ''comp''\<rparr> exampleApp = exampleApp"
    using t4[where canBeSidechainTarget = "\<lambda>k. False", THEN conjunct1] by simp
  note t6 = t4[where canBeSidechainTarget = "\<lambda>k. True", THEN conjunct2, rule_format, OF TrueI]
  note t7 = t6[THEN conjunct2, THEN conjunct1]
  have t8: "settingsOf (handleRemoveLink (\<lambda>k. True) \<lparr>link_from = ''eq'', link_to = ''comp''\<rparr> exampleApp) ''comp''
     = Some [''ratio'' \<mapsto> Num 4, ''sidechainActive'' \<mapsto> Flag False]"
    using t6[THEN conjunct2, THEN conjunct2, THEN conjunct2, THEN conjunct2, THEN conjunct2, THEN conjunct1]
    by (simp add: exampleApp_reads spread_def)
  have "''reverb'' \<noteq> link_to \<lparr>link_from = ''eq'', link_to = ''comp''\<rparr>" by simp
  note t6[THEN conjunct2, THEN conjunct2, THEN conjunct2, THEN conjunct2, THEN conjunct2, THEN conjunct2,
      rule_format, OF exampleApp_allocated this, THEN conjunct2]
  then have t9: "settingsOf (handleRemoveLink (\<lambda>k. True) \<lparr>link_from = ''eq'', link_to = ''comp''\<rparr> exampleApp) ''reverb''
     = Some [''mix'' \<mapsto> Num 30, ''size'' \<mapsto> Num 50]"
    by (simp add: exampleApp_reads)
  show ?thesis
    using exampleApp_midi(1) otherMessage_facts(2) u t1 p t2 n t3 exampleApp_no_edge t5
      exampleApp_allocated t7 t8 t9
    by simp
qed

lemma exampleApp_flag: "paramOf exampleApp ''comp'' ''sidechainActive'' = Some (Flag True)"
  by (simp add: paramOf_def exampleApp_reads)

lemma removed_flag:
  "paramOf (handleRemoveLink (\<lambda>k. True) \<lparr>link_from = ''eq'', link_to = ''comp''\<rparr> exampleApp)
     ''comp'' ''sidechainActive'' = Some (Flag False)"
  by (simp add: paramOf_def removeLink_no_match[OF exampleApp_no_edge] hpsc_settingsOf_same
      partialOf_def)

lemma armed_unmapped_message:
  "midiMappings (handleMidiMessage statusIsControlChange otherMessage armedApp) (mappingKey ''dev2'' 7)
     = Some \<lparr>pluginKey = ''comp'', paramName = ''ratio'', minVal = 1, maxVal = 20\<rparr>"
  by (simp add: handleMidiMessage_def otherMessage_facts armedApp_facts Let_def)

text \<open>
  The claim as stated fails in two places. Removing the absent link eq to comp, while
  delay to comp exists and comp has \<open>sidechainActive\<close> set, clears that flag. A message
  from an unmapped controller that arrives while a learn target is armed records a
  mapping.
\<close>

theorem failure_paths_counterexample:
  "\<not> list_ex (\<lambda>link. link_from link = ''eq'' \<and> link_to link = ''comp'') (sidechainLinks exampleApp) \<and>
   paramOf exampleApp ''comp'' ''sidechainActive'' = Some (Flag True) \<and>
   paramOf (handleRemoveLink (\<lambda>k. True) \<lparr>link_from = ''eq'', link_to = ''comp''\<rparr> exampleApp)
     ''comp'' ''sidechainActive'' = Some (Flag False) \<and>
   handleRemoveLink (\<lambda>k. True) \<lparr>link_from = ''eq'', link_to = ''comp''\<rparr> exampleApp \<noteq> exampleApp \<and>
   statusIsControlChange otherMessage \<and> msg_target otherMessage = Some ''dev2'' \<and>
   msg_cc otherMessage = 7 \<and>
   midiMappings armedApp (mappingKey ''dev2'' 7) = None \<and>
   midiMappings (handleMidiMessage statusIsControlChange otherMessage armedApp) (mappingKey ''dev2'' 7)
     = Some \<lparr>pluginKey = ''comp'', paramName = ''ratio'', minVal = 1, maxVal = 20\<rparr> \<and>
   handleMidiMessage statusIsControlChange otherMessage armedApp \<noteq> armedApp"
proof -
  have a: "handleRemoveLink (\<lambda>k. True) \<lparr>link_from = ''eq'', link_to = ''comp''\<rparr> exampleApp \<noteq> exampleApp"
    using exampleApp_flag removed_flag by auto
  have u: "midiMappings armedApp (mappingKey ''dev2'' 7) = None"
    by (simp add: armedApp_facts exampleApp_unmapped)
  have b: "handleMidiMessage statusIsControlChange otherMessage armedApp \<noteq> armedApp"
    using u armed_unmapped_message by auto
  show ?thesis
    using exampleApp_no_edge exampleApp_flag removed_flag a otherMessage_facts u
      armed_unmapped_message b
    by simp
qed

section \<open>MixxVerb bridge: the particle cap\<close>

lemma length_mkParticles: "length (mkParticles c rnd k idCounter n) = n"
  by (induction n arbitrary: k idCounter) (simp_all add: Let_def)

lemma runBurst_particles:
  "particles (runBurst c rnd b) =
     drop (length (particles b) + nat (particleCount (b_complexity c) (b_normalizedMix c)) - 300)
       (particles b @ mkParticles c rnd 0 (particleIdCounter b)
          (nat (particleCount (b_complexity c) (b_normalizedMix c))))"
  by (simp add: runBurst_def Let_def length_mkParticles)

lemma runBurst_length:
  "length (particles (runBurst c rnd b)) =
     min 300 (length (particles b) + nat (particleCount (b_complexity c) (b_normalizedMix c)))"
  by (simp add: runBurst_particles length_mkParticles)

lemma runBurst_cap: "length (particles (runBurst c rnd b)) \<le> 300"
  by (simp add: runBurst_length)

lemma runCallback_cap:
  "length (particles b) \<le> 300 \<Longrightarrow> length (particles (runCallback cb rnd b)) \<le> 300"
  by (cases cb) (simp_all add: runCallback_def runBurst_cap)

lemma fire_cap: "length (particles b) \<le> 300 \<Longrightarrow> length (particles (fire h rnd b)) \<le> 300"
  by (simp add: fire_def runCallback_cap split: option.splits)

lemma length_updateParticles: "length (updateParticles ds rnd k ps) = length ps"
  by (induction ps arbitrary: k) simp_all

lemma spawnOnTransient_particles: "particles (spawnOnTransient sig gs mood b) = particles b"
  by (simp add: spawnOnTransient_def Let_def setTimeout_def clearTimeout_def split: option.splits)

lemma dspProcess_particles:
  "particles (fst (dspProcess sig w h gs mood rnd b)) =
     filter alive (updateParticles (depthSpeedOf gs) rnd 0 (particles b))"
  by (simp add: dspProcess_def Let_def spawnOnTransient_particles)

lemma dspProcess_length: "length (particles (fst (dspProcess sig w h gs mood rnd b))) \<le> length (particles b)"
  unfolding dspProcess_particles
  by (rule order_trans[OF length_filter_le]) (simp add: length_updateParticles)

lemma step_cap: "length (particles b) \<le> 300 \<Longrightarrow> length (particles (step ev b)) \<le> 300"
proof (cases ev)
  case (Frame sig gs mood rnd)
  assume "length (particles b) \<le> 300"
  with dspProcess_length[of sig 0 0 gs mood rnd b] show ?thesis
    unfolding Frame by simp
qed (simp_all add: fire_cap)

lemma run_cap: "length (particles b) \<le> 300 \<Longrightarrow> length (particles (run evs b)) \<le> 300"
  unfolding run_def
  by (induction evs arbitrary: b) (simp_all add: step_cap)

lemma particleCount_low_half: "particleCount ''low'' (1 / 2) = 25"
  by (simp add: particleCount_def mathRound_def)

text \<open>
  Claim C8. The burst callback leaves at most 300 particles, and what it leaves is the
  old list followed by the new particles with the excess over 300 dropped from the front
  (the oldest). Hence a bridge with at most 300 particles, a new bridge in particular,
  has at most 300 particles after any sequence of frames, timer callbacks, passing time
  and settings updates.
\<close>

theorem particle_cap:
  "length (particles (runBurst c rnd b)) \<le> 300 \<and>
   particles (runBurst c rnd b) =
     drop (length (particles b) + nat (particleCount (b_complexity c) (b_normalizedMix c)) - 300)
       (particles b @ mkParticles c rnd 0 (particleIdCounter b)
          (nat (particleCount (b_complexity c) (b_normalizedMix c)))) \<and>
   (length (particles b) \<le> 300 \<longrightarrow> length (particles (run evs b)) \<le> 300) \<and>
   length (particles (run evs (newBridge initialSettings))) \<le> 300"
proof (intro conjI impI)
  show "length (particles (runBurst c rnd b)) \<le> 300" by (rule runBurst_cap)
  show "particles (runBurst c rnd b) =
     drop (length (particles b) + nat (particleCount (b_complexity c) (b_normalizedMix c)) - 300)
       (particles b @ mkParticles c rnd 0 (particleIdCounter b)
          (nat (particleCount (b_complexity c) (b_normalizedMix c))))"
    by (rule runBurst_particles)
  show "length (particles (run evs b)) \<le> 300" if "length (particles b) \<le> 300"
    using that by (rule run_cap)
  show "length (particles (run evs (newBridge initialSettings))) \<le> 300"
    by (rule run_cap) (simp add: newBridge_def)
qed

lemma crowdedBridge_particles: "particles crowdedBridge = replicate 290 someParticle"
  by (simp add: crowdedBridge_def)

text \<open>
  A bridge with 290 particles receives a burst of 25: 300 remain, the first 275 of them
  old, so 15 of the oldest were dropped.
\<close>

theorem particle_cap_witness:
  "length (particles crowdedBridge) = 290 \<and>
   nat (particleCount (b_complexity burst50) (b_normalizedMix burst50)) = 25 \<and>
   length (particles (runBurst burst50 halfDraws crowdedBridge)) = 300 \<and>
   take 275 (particles (runBurst burst50 halfDraws crowdedBridge)) = replicate 275 someParticle \<and>
   length (particles (run [Fire 1 halfDraws, Frame \<lparr>sig_time = 1, sig_transients = True\<rparr> lowSettings None halfDraws]
      crowdedBridge)) \<le> 300"
proof -
  have n: "nat (particleCount (b_complexity burst50) (b_normalizedMix burst50)) = 25"
    by (simp add: burst50_def particleCount_low_half)
  have l: "length (particles crowdedBridge) \<le> 300" "length (particles crowdedBridge) = 290"
    by (simp_all add: crowdedBridge_particles)
  note t = particle_cap[where b = crowdedBridge and c = burst50 and rnd = halfDraws
      and evs = "[Fire 1 halfDraws, Frame \<lparr>sig_time = 1, sig_transients = True\<rparr> lowSettings None halfDraws]"]
  note t2 = t[THEN conjunct2, THEN conjunct1, unfolded n]
  note t3 = t[THEN conjunct2, THEN conjunct2, THEN conjunct1, rule_format, OF l(1)]
  have a: "length (particles (runBurst burst50 halfDraws crowdedBridge)) = 300"
    unfolding t2 by (simp add: crowdedBridge_particles length_mkParticles)
  have b: "take 275 (particles (runBurst burst50 halfDraws crowdedBridge)) = replicate 275 someParticle"
    unfolding t2 by (simp add: crowdedBridge_particles length_mkParticles)
  show ?thesis using l(2) n a b t3 by simp
qed

section \<open>MixxVerb bridge: the timer queue\<close>

lemma run_Cons: "run (ev # evs) b = run evs (step ev b)"
  by (simp add: run_def)

lemma run_Nil: "run [] b = b"
  by (simp add: run_def)

lemma spawn_timers:
  "timers (spawnOnTransient sig gs mood b) =
     (if accepted sig b \<and> 1 < v_mix (settings b)
      then clearedPulse b @
             [\<lparr>t_handle = nextHandle b, t_due = clock b + 100, t_callback = PulseOff\<rparr>,
              \<lparr>t_handle = Suc (nextHandle b), t_due = clock b + max 0 (v_predelay (settings b)),
               t_callback = Burst (burstOf sig gs mood b)\<rparr>]
      else timers b)"
  by (simp add: spawnOnTransient_def accepted_def clearedPulse_def burstOf_def Let_def
      setTimeout_def clearTimeout_def split: option.splits)

lemma dspProcess_timers:
  "timers (fst (dspProcess sig w h gs mood rnd b)) = timers (spawnOnTransient sig gs mood b)"
  by (simp add: dspProcess_def Let_def)

lemma newBridge_fields:
  "settings (newBridge st) = st" "timers (newBridge st) = []" "lastTransientTime (newBridge st) = 0"
  "pulseTimeout (newBridge st) = None" "nextHandle (newBridge st) = 1" "clock (newBridge st) = 0"
  "particles (newBridge st) = []"
  by (simp_all add: newBridge_def)

lemma transientAt_fields: "sig_transients (transientAt t)" "sig_time (transientAt t) = t"
  by (simp_all add: transientAt_def)

lemma baseHue_None: "baseHueOf None = 195"
  by (simp add: baseHueOf_def moodHueMap_def)

lemma spawn_fields:
  "nextHandle (spawnOnTransient sig gs mood b) =
     (if accepted sig b \<and> 1 < v_mix (settings b) then Suc (Suc (nextHandle b)) else nextHandle b)"
  "pulseTimeout (spawnOnTransient sig gs mood b) =
     (if accepted sig b \<and> 1 < v_mix (settings b) then Some (nextHandle b) else pulseTimeout b)"
  "clock (spawnOnTransient sig gs mood b) = clock b"
  "settings (spawnOnTransient sig gs mood b) = settings b"
  "lastTransientTime (spawnOnTransient sig gs mood b) =
     (if accepted sig b then sig_time sig else lastTransientTime b)"
  by (simp_all add: spawnOnTransient_def accepted_def Let_def setTimeout_def clearTimeout_def
      split: option.splits)

lemma dspProcess_fields:
  "nextHandle (fst (dspProcess sig w h gs mood rnd b)) = nextHandle (spawnOnTransient sig gs mood b)"
  "pulseTimeout (fst (dspProcess sig w h gs mood rnd b)) = pulseTimeout (spawnOnTransient sig gs mood b)"
  "clock (fst (dspProcess sig w h gs mood rnd b)) = clock b"
  "settings (fst (dspProcess sig w h gs mood rnd b)) = settings b"
  "lastTransientTime (fst (dspProcess sig w h gs mood rnd b))
     = lastTransientTime (spawnOnTransient sig gs mood b)"
  by (simp_all add: dspProcess_def Let_def spawn_fields)

lemma set_clearedPulse: "set (clearedPulse b) \<subseteq> set (timers b)"
  by (auto simp: clearedPulse_def split: option.splits)

lemma distinct_clearedPulse:
  "distinct (map t_handle (timers b)) \<Longrightarrow> distinct (map t_handle (clearedPulse b))"
  by (simp add: clearedPulse_def distinct_map_filter split: option.splits)

lemma burst_in_clearedPulse:
  assumes "hostOk b" "t \<in> set (timers b)" "t_callback t = Burst c"
  shows "t \<in> set (clearedPulse b)"
proof (cases "pulseTimeout b")
  case None
  then show ?thesis using assms(2) by (simp add: clearedPulse_def)
next
  case (Some h0)
  with assms(1,2) have "t_handle t = h0 \<longrightarrow> t_callback t = PulseOff"
    by (simp add: hostOk_def)
  with assms(3) have "t_handle t \<noteq> h0" by auto
  with Some assms(2) show ?thesis by (simp add: clearedPulse_def)
qed

lemma burst_survives_frame:
  assumes "hostOk b" "t \<in> set (timers b)" "t_callback t = Burst c"
  shows "t \<in> set (timers (fst (dspProcess sig w h gs mood rnd b)))"
  using burst_in_clearedPulse[OF assms] assms(2)
  by (simp add: dspProcess_timers spawn_timers)

lemma pulse_cleared:
  assumes "hostOk b" "accepted sig b" "1 < v_mix (settings b)" "pulseTimeout b = Some h0"
  shows "h0 \<notin> t_handle ` set (timers (fst (dspProcess sig w h gs mood rnd b)))"
proof -
  from assms(1,4) have h: "0 < h0" "h0 < nextHandle b" by (simp_all add: hostOk_def)
  then have "h0 \<notin> t_handle ` set (clearedPulse b)"
    using assms(4) by (auto simp: clearedPulse_def)
  with h show ?thesis using assms(2,3)
    by (simp add: dspProcess_timers spawn_timers)
qed

lemma hostOk_frame:
  assumes "hostOk b"
  shows "hostOk (fst (dspProcess sig w h gs mood rnd b))"
proof (cases "accepted sig b \<and> 1 < v_mix (settings b)")
  case False
  then have "timers (fst (dspProcess sig w h gs mood rnd b)) = timers b"
    "nextHandle (fst (dspProcess sig w h gs mood rnd b)) = nextHandle b"
    "pulseTimeout (fst (dspProcess sig w h gs mood rnd b)) = pulseTimeout b"
    by (auto simp: dspProcess_timers spawn_timers dspProcess_fields spawn_fields)
  with assms show ?thesis by (simp add: hostOk_def)
next
  case True
  have lt: "\<forall>t\<in>set (clearedPulse b). t_handle t < nextHandle b"
    using assms set_clearedPulse[of b] by (auto simp: hostOk_def)
  have d: "distinct (map t_handle (clearedPulse b))"
    using assms by (simp add: hostOk_def distinct_clearedPulse)
  have p: "0 < nextHandle b" using assms by (simp add: hostOk_def)
  show ?thesis
    unfolding hostOk_def dspProcess_fields spawn_fields dspProcess_timers spawn_timers
    using True lt d p by (auto simp: less_Suc_eq)
qed

lemma fire_fields:
  "nextHandle (fire h rnd b) = nextHandle b" "pulseTimeout (fire h rnd b) = pulseTimeout b"
  "clock (fire h rnd b) = clock b"
  by (simp_all add: fire_def runCallback_def runBurst_def Let_def split: option.splits callback.splits)

lemma fire_timers:
  "timers (fire h rnd b) = timers b \<or> timers (fire h rnd b) = filter (\<lambda>t. t_handle t \<noteq> h) (timers b)"
  by (simp add: fire_def runCallback_def runBurst_def Let_def split: option.splits callback.splits)

lemma hostOk_fire:
  assumes "hostOk b"
  shows "hostOk (fire h rnd b)"
  using fire_timers[of h rnd b] assms
  by (auto simp: hostOk_def fire_fields distinct_map_filter)

lemma hostOk_step: "hostOk b \<Longrightarrow> hostOk (step ev b)"
proof (cases ev)
  case (Frame sig gs mood rnd)
  assume "hostOk b"
  then show ?thesis unfolding Frame by (simp add: hostOk_frame)
next
  case (Fire h rnd)
  assume "hostOk b"
  then show ?thesis unfolding Fire by (simp add: hostOk_fire)
qed (simp_all add: hostOk_def)

lemma hostOk_newBridge: "hostOk (newBridge st)"
  by (simp add: hostOk_def newBridge_def)

lemma hostOk_run: "hostOk b \<Longrightarrow> hostOk (run evs b)"
  by (induction evs arbitrary: b) (simp_all add: run_Nil run_Cons hostOk_step)

lemma find_distinct:
  "distinct (map f xs) \<Longrightarrow> x \<in> set xs \<Longrightarrow> find (\<lambda>u. f u = f x) xs = Some x"
  by (induction xs) (auto simp: image_iff)

lemma fire_own_burst:
  assumes "hostOk b" "t \<in> set (timers b)" "t_callback t = Burst c" "t_due t \<le> clock b"
  shows "fire (t_handle t) rnd b =
           runBurst c rnd (b\<lparr>timers := filter (\<lambda>u. t_handle u \<noteq> t_handle t) (timers b)\<rparr>)"
proof -
  from assms(1) have "distinct (map t_handle (timers b))" by (simp add: hostOk_def)
  from find_distinct[OF this assms(2)] show ?thesis
    using assms(3,4) by (simp add: fire_def runCallback_def)
qed

lemma fire_not_due:
  assumes "hostOk b" "t \<in> set (timers b)" "clock b < t_due t"
  shows "fire (t_handle t) rnd b = b"
proof -
  from assms(1) have "distinct (map t_handle (timers b))" by (simp add: hostOk_def)
  from find_distinct[OF this assms(2)] show ?thesis
    using assms(3) by (simp add: fire_def)
qed

lemma burst_survives_step:
  assumes "hostOk b" "t \<in> set (timers b)" "t_callback t = Burst c" "\<forall>rnd. ev \<noteq> Fire (t_handle t) rnd"
  shows "t \<in> set (timers (step ev b))"
proof (cases ev)
  case (Frame sig gs mood rnd)
  show ?thesis unfolding Frame using burst_survives_frame[OF assms(1-3)] by simp
next
  case (Fire h rnd)
  with assms(4) have "h \<noteq> t_handle t" by auto
  with fire_timers[of h rnd b] assms(2) show ?thesis unfolding Fire by auto
next
  case (Elapse dt)
  with assms(2) show ?thesis by simp
next
  case (SetSettings v)
  with assms(2) show ?thesis by simp
qed

lemma dspProcess_idCounter:
  "particleIdCounter (fst (dspProcess sig w h gs mood rnd b)) = particleIdCounter b"
  by (simp add: dspProcess_def Let_def spawnOnTransient_def setTimeout_def clearTimeout_def
      split: option.splits)

lemma scheduled_burst_pending:
  assumes "accepted sig b" "1 < v_mix (settings b)"
  shows "\<lparr>t_handle = Suc (nextHandle b), t_due = clock b + max 0 (v_predelay (settings b)),
          t_callback = Burst (burstOf sig gs mood b)\<rparr>
           \<in> set (timers (fst (dspProcess sig w h gs mood rnd b)))"
  using assms by (simp add: dspProcess_timers spawn_timers)

lemma scheduled_burst_runs:
  assumes "hostOk b" "accepted sig b" "1 < v_mix (settings b)" "max 0 (v_predelay (settings b)) \<le> dt"
  shows "particles (fire (Suc (nextHandle b)) rnd' (step (Elapse dt) (fst (dspProcess sig w h gs mood rnd b))))
           = particles (runBurst (burstOf sig gs mood b) rnd' (fst (dspProcess sig w h gs mood rnd b)))"
proof -
  let ?b1 = "fst (dspProcess sig w h gs mood rnd b)"
  let ?b2 = "step (Elapse dt) ?b1"
  let ?t = "\<lparr>t_handle = Suc (nextHandle b), t_due = clock b + max 0 (v_predelay (settings b)),
             t_callback = Burst (burstOf sig gs mood b)\<rparr>"
  have ok: "hostOk ?b2" using assms(1) by (intro hostOk_step hostOk_frame)
  have m: "?t \<in> set (timers ?b2)"
    using scheduled_burst_pending[OF assms(2,3), of gs mood w h rnd] by simp
  have c: "t_callback ?t = Burst (burstOf sig gs mood b)" by simp
  have d: "t_due ?t \<le> clock ?b2" using assms(4) by (simp add: dspProcess_fields)
  from fire_own_burst[OF ok m c d, of rnd']
  show ?thesis by (simp add: runBurst_particles)
qed

section \<open>MixxVerb bridge: scheduling a burst on a transient\<close>

lemma particleCount_low_bounds:
  assumes "1 / 100 < nm" "nm \<le> 1"
  shows "10 \<le> particleCount ''low'' nm" "particleCount ''low'' nm \<le> 40"
proof -
  have "0 \<le> nm * 30 + 1 / 2" using assms by simp
  then have "0 \<le> \<lfloor>nm * 30 + 1 / 2\<rfloor>" by simp
  then show "10 \<le> particleCount ''low'' nm" by (simp add: particleCount_def mathRound_def)
  have "nm * 30 + 1 / 2 < 31" using assms by simp
  then have "\<lfloor>nm * 30 + 1 / 2\<rfloor> < 31" by (simp add: floor_less_iff)
  then show "particleCount ''low'' nm \<le> 40" by (simp add: particleCount_def mathRound_def)
qed

text \<open>
  Claim C7, as the code has it. Let a frame observe a transient. With a mix of at most 1
  (a normalised mix of at most 0.01; mix = 0 in particular) it schedules nothing: the
  timer queue is unchanged. With 1 < mix \<le> 100 and complexity \<open>low\<close> it schedules, after
  clearing the previous pulse timer, the pulse reset and exactly one burst, due after the
  predelay, whose particle count \<open>n = 10 + round (mix / 100 * 30)\<close> lies between 10 and 40.
  When that callback runs, at any time from its due time on, it creates \<open>n\<close> particles and
  appends them to the particle list (of which the oldest beyond 300 are dropped).
\<close>

theorem transient_burst_size:
  assumes "sig_transients sig" "lastTransientTime b + 0.1 < sig_time sig"
  shows "(v_mix (settings b) = 0 \<longrightarrow> timers (fst (dspProcess sig w h gs mood rnd b)) = timers b) \<and>
         (v_mix (settings b) \<le> 1 \<longrightarrow> timers (fst (dspProcess sig w h gs mood rnd b)) = timers b) \<and>
         (1 < v_mix (settings b) \<and> v_mix (settings b) \<le> 100 \<and> visualizerComplexity gs = ''low'' \<longrightarrow>
            timers (fst (dspProcess sig w h gs mood rnd b)) =
              clearedPulse b @
                [\<lparr>t_handle = nextHandle b, t_due = clock b + 100, t_callback = PulseOff\<rparr>,
                 \<lparr>t_handle = Suc (nextHandle b), t_due = clock b + max 0 (v_predelay (settings b)),
                  t_callback = Burst (burstOf sig gs mood b)\<rparr>] \<and>
            burstSizes (timers (fst (dspProcess sig w h gs mood rnd b)))
              = burstSizes (clearedPulse b) @ [particleCount ''low'' (v_mix (settings b) / 100)] \<and>
            10 \<le> particleCount ''low'' (v_mix (settings b) / 100) \<and>
            particleCount ''low'' (v_mix (settings b) / 100) \<le> 40 \<and>
            (hostOk b \<and> max 0 (v_predelay (settings b)) \<le> dt \<longrightarrow>
               particles (fire (Suc (nextHandle b)) rnd'
                            (step (Elapse dt) (fst (dspProcess sig w h gs mood rnd b))))
                 = drop (length (particles (fst (dspProcess sig w h gs mood rnd b)))
                          + nat (particleCount ''low'' (v_mix (settings b) / 100)) - 300)
                     (particles (fst (dspProcess sig w h gs mood rnd b)) @
                      mkParticles (burstOf sig gs mood b) rnd' 0 (particleIdCounter b)
                        (nat (particleCount ''low'' (v_mix (settings b) / 100))))) \<and>
            length (mkParticles (burstOf sig gs mood b) rnd' 0 (particleIdCounter b)
                      (nat (particleCount ''low'' (v_mix (settings b) / 100))))
              = nat (particleCount ''low'' (v_mix (settings b) / 100)))"
proof -
  have acc: "accepted sig b" using assms by (simp add: accepted_def)
  have pb: "pendingBursts (xs @ ys) = pendingBursts xs @ pendingBursts ys" for xs ys
    by (induction xs) (simp_all split: callback.splits)
  show ?thesis
  proof (intro conjI impI)
    show "timers (fst (dspProcess sig w h gs mood rnd b)) = timers b" if "v_mix (settings b) = 0"
      using that by (simp add: dspProcess_timers spawn_timers)
    show "timers (fst (dspProcess sig w h gs mood rnd b)) = timers b" if "v_mix (settings b) \<le> 1"
      using that by (simp add: dspProcess_timers spawn_timers)
  next
    assume h: "1 < v_mix (settings b) \<and> v_mix (settings b) \<le> 100 \<and> visualizerComplexity gs = ''low''"
    show t: "timers (fst (dspProcess sig w h gs mood rnd b)) =
              clearedPulse b @
                [\<lparr>t_handle = nextHandle b, t_due = clock b + 100, t_callback = PulseOff\<rparr>,
                 \<lparr>t_handle = Suc (nextHandle b), t_due = clock b + max 0 (v_predelay (settings b)),
                  t_callback = Burst (burstOf sig gs mood b)\<rparr>]"
      using h acc by (simp add: dspProcess_timers spawn_timers)
    show "burstSizes (timers (fst (dspProcess sig w h gs mood rnd b)))
              = burstSizes (clearedPulse b) @ [particleCount ''low'' (v_mix (settings b) / 100)]"
      unfolding t using h by (simp add: burstSizes_def pb burstOf_def)
    from h have nm: "1 / 100 < v_mix (settings b) / 100" "v_mix (settings b) / 100 \<le> 1" by simp_all
    show "10 \<le> particleCount ''low'' (v_mix (settings b) / 100)"
      and "particleCount ''low'' (v_mix (settings b) / 100) \<le> 40"
      using particleCount_low_bounds[OF nm] by simp_all
    show "length (mkParticles (burstOf sig gs mood b) rnd' 0 (particleIdCounter b)
                      (nat (particleCount ''low'' (v_mix (settings b) / 100))))
              = nat (particleCount ''low'' (v_mix (settings b) / 100))"
      by (rule length_mkParticles)
  next
    assume h: "1 < v_mix (settings b) \<and> v_mix (settings b) \<le> 100 \<and> visualizerComplexity gs = ''low''"
      and k: "hostOk b \<and> max 0 (v_predelay (settings b)) \<le> dt"
    have c: "b_complexity (burstOf sig gs mood b) = ''low''"
      "b_normalizedMix (burstOf sig gs mood b) = v_mix (settings b) / 100"
      using h by (simp_all add: burstOf_def)
    from h k acc
    have "particles (fire (Suc (nextHandle b)) rnd'
                       (step (Elapse dt) (fst (dspProcess sig w h gs mood rnd b))))
            = particles (runBurst (burstOf sig gs mood b) rnd' (fst (dspProcess sig w h gs mood rnd b)))"
      by (intro scheduled_burst_runs) simp_all
    then show "particles (fire (Suc (nextHandle b)) rnd'
                            (step (Elapse dt) (fst (dspProcess sig w h gs mood rnd b))))
                 = drop (length (particles (fst (dspProcess sig w h gs mood rnd b)))
                          + nat (particleCount ''low'' (v_mix (settings b) / 100)) - 300)
                     (particles (fst (dspProcess sig w h gs mood rnd b)) @
                      mkParticles (burstOf sig gs mood b) rnd' 0 (particleIdCounter b)
                        (nat (particleCount ''low'' (v_mix (settings b) / 100))))"
      by (simp add: runBurst_particles c dspProcess_idCounter)
  qed
qed

lemma new_frame_particles:
  "particles (fst (dspProcess sig w h gs mood rnd (newBridge st))) = []"
  by (simp add: dspProcess_particles newBridge_fields)

text \<open>
  A new bridge at time 1: mix 0 schedules nothing; mix 50 schedules one burst of 25, and
  the callback, run 150 ms later, leaves 25 particles.
\<close>

theorem transient_burst_size_witness:
  "sig_transients (transientAt 1) \<and>
   lastTransientTime (newBridge verbSettings) + 0.1 < sig_time (transientAt 1) \<and>
   v_mix (settings (newBridge drySettings)) = 0 \<and>
   timers (fst (dspProcess (transientAt 1) 0 0 lowSettings None halfDraws (newBridge drySettings))) = [] \<and>
   1 < v_mix (settings (newBridge verbSettings)) \<and> v_mix (settings (newBridge verbSettings)) \<le> 100 \<and>
   visualizerComplexity lowSettings = ''low'' \<and>
   burstSizes (timers (fst (dspProcess (transientAt 1) 0 0 lowSettings None halfDraws
      (newBridge verbSettings)))) = [25] \<and>
   hostOk (newBridge verbSettings) \<and> max 0 (v_predelay (settings (newBridge verbSettings))) \<le> 150 \<and>
   length (particles (fire 2 halfDraws (step (Elapse 150)
      (fst (dspProcess (transientAt 1) 0 0 lowSettings None halfDraws (newBridge verbSettings)))))) = 25"
proof -
  have a: "sig_transients (transientAt 1)"
    and b: "lastTransientTime (newBridge st) + 0.1 < sig_time (transientAt 1)" for st
    by (simp_all add: transientAt_fields newBridge_fields)
  have d: "v_mix (settings (newBridge drySettings)) = 0"
    by (simp add: newBridge_fields drySettings_def)
  have m: "1 < v_mix (settings (newBridge verbSettings)) \<and> v_mix (settings (newBridge verbSettings)) \<le> 100 \<and>
           visualizerComplexity lowSettings = ''low''"
    by (simp add: newBridge_fields verbSettings_def lowSettings_def)
  have c: "v_mix (settings (newBridge verbSettings)) / 100 = 1 / 2"
    by (simp add: newBridge_fields verbSettings_def)
  have e: "burstSizes (clearedPulse (newBridge verbSettings)) = []"
    by (simp add: burstSizes_def clearedPulse_def newBridge_fields)
  have k: "hostOk (newBridge verbSettings) \<and> max 0 (v_predelay (settings (newBridge verbSettings))) \<le> 150"
    by (simp add: hostOk_newBridge newBridge_fields verbSettings_def)
  note t = transient_burst_size[OF a b, where w = 0 and h = 0 and gs = lowSettings
        and mood = None and rnd = halfDraws]
  note tv = t[where st1 = verbSettings and rnd' = halfDraws and dt = 150,
      THEN conjunct2, THEN conjunct2, rule_format, OF m]
  have "timers (fst (dspProcess (transientAt 1) 0 0 lowSettings None halfDraws (newBridge drySettings))) = []"
    using t[where st1 = drySettings, THEN conjunct1] d
    by (simp add: newBridge_fields)
  moreover have "burstSizes (timers (fst (dspProcess (transientAt 1) 0 0 lowSettings None halfDraws
      (newBridge verbSettings)))) = [25]"
    using tv[THEN conjunct2, THEN conjunct1]
    by (simp add: c e particleCount_low_half)
  moreover have "length (particles (fire 2 halfDraws (step (Elapse 150)
      (fst (dspProcess (transientAt 1) 0 0 lowSettings None halfDraws (newBridge verbSettings)))))) = 25"
    using tv[THEN conjunct2, THEN conjunct2, THEN conjunct2, THEN conjunct2, THEN conjunct1,
        rule_format, OF k]
    unfolding c particleCount_low_half new_frame_particles
    by (simp add: newBridge_fields length_mkParticles numeral_2_eq_2)
  ultimately show ?thesis using a b[of verbSettings] d m k by simp
qed

lemma faint_facts:
  "0 < v_mix (settings (newBridge faintSettings))" "v_mix (settings (newBridge faintSettings)) \<le> 100"
  "v_mix (settings (newBridge faintSettings)) \<le> 1"
  by (simp_all add: newBridge_fields faintSettings_def)

lemma faint_timers:
  "timers (fst (dspProcess (transientAt 1) 0 0 lowSettings None halfDraws (newBridge faintSettings))) = []"
  by (simp add: dspProcess_timers spawn_timers newBridge_fields faintSettings_def)

lemma fire_empty: "timers b = [] \<Longrightarrow> fire h rnd b = b"
  by (simp add: fire_def)

lemma faint_never_bursts:
  "particles (run [transientFrame 1, Elapse 200, Fire 1 halfDraws, Fire 2 halfDraws]
      (newBridge faintSettings)) = []"
proof -
  let ?b1 = "fst (dspProcess (transientAt 1) 0 0 lowSettings None halfDraws (newBridge faintSettings))"
  let ?b2 = "step (Elapse 200) ?b1"
  have t: "timers ?b2 = []" using faint_timers by simp
  have p: "particles ?b2 = []" by (simp add: new_frame_particles)
  have "run [transientFrame 1, Elapse 200, Fire 1 halfDraws, Fire 2 halfDraws] (newBridge faintSettings)
          = fire 2 halfDraws (fire 1 halfDraws ?b2)"
    by (simp only: run_Cons run_Nil step.simps(1,2) transientFrame_def)
  also have "fire 1 halfDraws ?b2 = ?b2" using t by (rule fire_empty)
  also have "fire 2 halfDraws ?b2 = ?b2" using t by (rule fire_empty)
  finally show ?thesis using p by simp
qed

text \<open>
  The claim as stated fails for a mix between 0 and 1: with mix = 1/2 and complexity
  \<open>low\<close> a frame that observes a transient schedules no burst at all, and no timer
  callback inserts a particle afterwards.
\<close>

theorem transient_burst_size_counterexample:
  "sig_transients (transientAt 1) \<and>
   lastTransientTime (newBridge faintSettings) + 0.1 < sig_time (transientAt 1) \<and>
   0 < v_mix (settings (newBridge faintSettings)) \<and> v_mix (settings (newBridge faintSettings)) \<le> 100 \<and>
   visualizerComplexity lowSettings = ''low'' \<and>
   timers (fst (dspProcess (transientAt 1) 0 0 lowSettings None halfDraws (newBridge faintSettings))) = [] \<and>
   burstSizes (timers (fst (dspProcess (transientAt 1) 0 0 lowSettings None halfDraws
      (newBridge faintSettings)))) = [] \<and>
   particles (run [transientFrame 1, Elapse 200, Fire 1 halfDraws, Fire 2 halfDraws]
      (newBridge faintSettings)) = []"
  using faint_timers faint_facts faint_never_bursts
  by (simp add: transientAt_fields newBridge_fields lowSettings_def burstSizes_def)

section \<open>MixxVerb bridge: ageing and removal of particles\<close>

lemma depthSpeedOf_eq: "depthSpeedOf gs = (1 - 3 * animationIntensity gs / 400) / 200"
  by (simp add: depthSpeedOf_def mapRange_def field_simps)

lemma depthSpeedOf_bounds:
  assumes "0 \<le> animationIntensity gs" "animationIntensity gs \<le> 100"
  shows "1 / 800 \<le> depthSpeedOf gs" "depthSpeedOf gs \<le> 1 / 200"
  using assms by (simp_all add: depthSpeedOf_eq field_simps)

lemma updateParticle_fields:
  "p_id (updateParticle ds r1 r2 r3 p) = p_id p"
  "p_life (updateParticle ds r1 r2 r3 p) = p_life p"
  "p_z (updateParticle ds r1 r2 r3 p) = p_z p + ds"
  "p_opacity (updateParticle ds r1 r2 r3 p) = (0.5 + r3 * 0.5) * (1 - (p_z p + ds) / p_life p)"
  by (simp_all add: updateParticle_def Let_def)

lemma updateParticles_rel:
  "list_all2 (\<lambda>p q. p_id q = p_id p \<and> p_life q = p_life p \<and> p_z q = p_z p + ds)
     ps (updateParticles ds rnd k ps)"
  by (induction ps arbitrary: k) (simp_all add: updateParticle_fields)

lemma in_updateParticles:
  "q \<in> set (updateParticles ds rnd k ps) \<Longrightarrow> \<exists>p\<in>set ps. p_life q = p_life p \<and> p_z q = p_z p + ds"
  by (induction ps arbitrary: k) (auto simp: updateParticle_fields)

lemma updated_member:
  "p \<in> set ps \<Longrightarrow> \<exists>q\<in>set (updateParticles ds rnd k ps). p_life q = p_life p \<and> p_z q = p_z p + ds"
  by (induction ps arbitrary: k) (auto simp: updateParticle_fields)

lemma alive_iff: "alive q \<longleftrightarrow> \<not> (p_life q \<le> p_z q \<or> p_opacity q \<le> 0.01)"
  by (auto simp: alive_def)

lemma dspProcess_shrinks:
  assumes "p \<in> set (particles b)" "p_life p \<le> p_z p + depthSpeedOf gs"
  shows "length (particles (fst (dspProcess sig w h gs mood rnd b))) < length (particles b)"
proof -
  from updated_member[OF assms(1)] obtain q
    where q: "q \<in> set (updateParticles (depthSpeedOf gs) rnd 0 (particles b))"
      and f: "p_life q = p_life p" "p_z q = p_z p + depthSpeedOf gs"
    by blast
  from f assms(2) have "\<not> alive q" by (simp add: alive_def)
  with q have "length (filter alive (updateParticles (depthSpeedOf gs) rnd 0 (particles b)))
                 < length (updateParticles (depthSpeedOf gs) rnd 0 (particles b))"
    by (rule length_filter_less)
  then show ?thesis by (simp add: dspProcess_particles length_updateParticles)
qed

lemma frame_slack:
  assumes "\<forall>p\<in>set ps. p_life p - p_z p \<le> B" "1 / 800 \<le> ds"
    "q \<in> set (filter alive (updateParticles ds rnd k ps))"
  shows "p_life q - p_z q \<le> B - 1 / 800 \<and> p_z q < p_life q"
proof -
  from assms(3) have a: "alive q" and m: "q \<in> set (updateParticles ds rnd k ps)" by simp_all
  from in_updateParticles[OF m] obtain p
    where p: "p \<in> set ps" "p_life q = p_life p" "p_z q = p_z p + ds" by blast
  from assms(1) p(1) have "p_life p - p_z p \<le> B" by blast
  with p assms(2) a show ?thesis by (simp add: alive_def)
qed

lemma frameCount_Cons: "frameCount (ev # evs) = frameCount [ev] + frameCount evs"
  by (cases ev) simp_all

lemma slack_bounded: "\<exists>B::real. \<forall>p\<in>set ps. p_life p - p_z p \<le> B"
proof (induction ps)
  case Nil
  then show ?case by simp
next
  case (Cons p ps)
  then obtain B where "\<forall>p\<in>set ps. p_life p - p_z p \<le> B" by blast
  then have "\<forall>q\<in>set (p # ps). p_life q - p_z q \<le> max B (p_life p - p_z p)" by auto
  then show ?case by blast
qed

lemma pulse_only: "pendingBursts ts = [] \<Longrightarrow> t \<in> set ts \<Longrightarrow> t_callback t = PulseOff"
  by (induction ts) (auto split: callback.splits)

lemma pendingBursts_filter: "pendingBursts ts = [] \<Longrightarrow> pendingBursts (filter P ts) = []"
  by (induction ts) (auto split: callback.splits)

lemma fire_no_bursts:
  assumes "pendingBursts (timers b) = []"
  shows "particles (fire h rnd b) = particles b \<and> pendingBursts (timers (fire h rnd b)) = []"
proof (cases "find (\<lambda>t. t_handle t = h) (timers b)")
  case None
  with assms show ?thesis by (simp add: fire_def)
next
  case (Some t)
  then have "t \<in> set (timers b)" by (auto simp: find_Some_iff)
  with assms have "t_callback t = PulseOff" by (rule pulse_only)
  with Some assms show ?thesis
    by (simp add: fire_def runCallback_def pendingBursts_filter)
qed

lemma calm_step:
  assumes "calm ev" "pendingBursts (timers b) = []"
  shows "pendingBursts (timers (step ev b)) = [] \<and>
         ((\<exists>sig gs mood rnd. ev = Frame sig gs mood rnd \<and> 0 \<le> animationIntensity gs \<and>
             animationIntensity gs \<le> 100 \<and>
             particles (step ev b) = filter alive (updateParticles (depthSpeedOf gs) rnd 0 (particles b))) \<or>
          (frameCount [ev] = 0 \<and> particles (step ev b) = particles b))"
proof (cases ev)
  case (Frame sig gs mood rnd)
  with assms(1) have n: "\<not> accepted sig b" by (simp add: calm_def accepted_def)
  then have "timers (step ev b) = timers b"
    unfolding Frame by (simp add: dspProcess_timers spawn_timers)
  with assms Frame show ?thesis by (simp add: calm_def dspProcess_particles)
next
  case (Fire h rnd)
  with fire_no_bursts[OF assms(2), of h rnd] show ?thesis by simp
next
  case (Elapse dt)
  with assms(2) show ?thesis by simp
next
  case (SetSettings v)
  with assms(2) show ?thesis by simp
qed

lemma calm_step_length:
  assumes "calm ev" "pendingBursts (timers b) = []"
  shows "length (particles (step ev b)) \<le> length (particles b)"
proof -
  from calm_step[OF assms] show ?thesis
  proof (elim conjE disjE exE)
    fix sig gs mood rnd
    assume "particles (step ev b) = filter alive (updateParticles (depthSpeedOf gs) rnd 0 (particles b))"
    then have "length (particles (step ev b)) \<le> length (updateParticles (depthSpeedOf gs) rnd 0 (particles b))"
      by simp
    then show ?thesis by (simp add: length_updateParticles)
  next
    assume "particles (step ev b) = particles b"
    then show ?thesis by simp
  qed
qed

lemma calm_run_length:
  "list_all calm evs \<Longrightarrow> pendingBursts (timers b) = [] \<Longrightarrow>
     length (particles (run evs b)) \<le> length (particles b)"
proof (induction evs arbitrary: b)
  case Nil
  then show ?case by (simp add: run_Nil)
next
  case (Cons ev evs)
  from Cons.prems have c: "calm ev" and cs: "list_all calm evs" by simp_all
  from calm_step[OF c Cons.prems(2)] have "pendingBursts (timers (step ev b)) = []" by blast
  from Cons.IH[OF cs this]
  have "length (particles (run evs (step ev b))) \<le> length (particles (step ev b))" .
  moreover have "length (particles (step ev b)) \<le> length (particles b)"
    using c Cons.prems(2) by (rule calm_step_length)
  ultimately show ?case by (simp add: run_Cons)
qed

lemma calm_run_slack:
  assumes "list_all calm evs" "pendingBursts (timers b) = []"
    and "\<forall>p\<in>set (particles b). p_life p - p_z p \<le> B \<and> (fl \<longrightarrow> p_z p < p_life p)"
  shows "\<forall>p\<in>set (particles (run evs b)).
           p_life p - p_z p \<le> B - real (frameCount evs) / 800 \<and>
           (fl \<or> 0 < frameCount evs \<longrightarrow> p_z p < p_life p)"
  using assms
proof (induction evs arbitrary: b B fl)
  case Nil
  then show ?case by (simp add: run_Nil)
next
  case (Cons ev evs)
  from Cons.prems(1) have q: "calm ev" and qs: "list_all calm evs" by simp_all
  from calm_step[OF q Cons.prems(2)]
  have nb: "pendingBursts (timers (step ev b)) = []"
    and alt: "(\<exists>sig gs mood rnd. ev = Frame sig gs mood rnd \<and> 0 \<le> animationIntensity gs \<and>
             animationIntensity gs \<le> 100 \<and>
             particles (step ev b) = filter alive (updateParticles (depthSpeedOf gs) rnd 0 (particles b))) \<or>
          (frameCount [ev] = 0 \<and> particles (step ev b) = particles b)"
    by blast+
  from alt show ?case
  proof (elim disjE exE conjE)
    fix sig gs mood rnd
    assume ev: "ev = Frame sig gs mood rnd"
      and r: "0 \<le> animationIntensity gs" "animationIntensity gs \<le> 100"
      and ps: "particles (step ev b) = filter alive (updateParticles (depthSpeedOf gs) rnd 0 (particles b))"
    have b: "\<forall>p\<in>set (particles b). p_life p - p_z p \<le> B" using Cons.prems(3) by blast
    have "\<forall>p\<in>set (particles (step ev b)). p_life p - p_z p \<le> B - 1 / 800 \<and> (True \<longrightarrow> p_z p < p_life p)"
      unfolding ps using frame_slack[OF b depthSpeedOf_bounds(1)[OF r]] by blast
    from Cons.IH[OF qs nb this]
    have ih: "\<forall>p\<in>set (particles (run evs (step ev b))).
           p_life p - p_z p \<le> B - 1 / 800 - real (frameCount evs) / 800 \<and> p_z p < p_life p"
      by simp
    have e: "B - 1 / 800 - real (frameCount evs) / 800 = B - real (frameCount (ev # evs)) / 800"
      by (simp add: ev field_simps)
    show ?thesis unfolding run_Cons e[symmetric] using ih by blast
  next
    assume z: "frameCount [ev] = 0" and ps: "particles (step ev b) = particles b"
    have "\<forall>p\<in>set (particles (step ev b)). p_life p - p_z p \<le> B \<and> (fl \<longrightarrow> p_z p < p_life p)"
      unfolding ps by (rule Cons.prems(3))
    from Cons.IH[OF qs nb this]
    show ?thesis using z by (simp add: run_Cons frameCount_Cons[of ev evs])
  qed
qed

lemma calm_run_empty:
  assumes "list_all calm evs" "pendingBursts (timers b) = []"
    "\<forall>p\<in>set (particles b). p_life p - p_z p \<le> B"
    "1 \<le> frameCount evs" "800 * B \<le> real (frameCount evs)"
  shows "particles (run evs b) = []"
proof (rule ccontr)
  assume "particles (run evs b) \<noteq> []"
  then obtain p where p: "p \<in> set (particles (run evs b))" by (cases "particles (run evs b)") auto
  have "\<forall>p\<in>set (particles b). p_life p - p_z p \<le> B \<and> (False \<longrightarrow> p_z p < p_life p)"
    using assms(3) by simp
  from calm_run_slack[OF assms(1,2) this] p assms(4)
  have "p_life p - p_z p \<le> B - real (frameCount evs) / 800" "p_z p < p_life p" by auto
  with assms(5) show False by (simp add: field_simps)
qed

lemma eventually_empty:
  assumes "pendingBursts (timers b) = []"
  shows "\<exists>n. \<forall>evs. list_all calm evs \<and> n \<le> frameCount evs \<longrightarrow> particles (run evs b) = []"
proof -
  obtain B where B: "\<forall>p\<in>set (particles b). p_life p - p_z p \<le> B"
    using slack_bounded by blast
  define n where "n = max 1 (nat \<lceil>800 * B\<rceil>)"
  have "particles (run evs b) = []" if "list_all calm evs \<and> n \<le> frameCount evs" for evs
  proof (rule calm_run_empty[OF _ assms B])
    show "list_all calm evs" using that by simp
    show "1 \<le> frameCount evs" using that by (simp add: n_def)
    have "800 * B \<le> real_of_int \<lceil>800 * B\<rceil>" by (rule le_of_int_ceiling)
    also have "\<dots> \<le> real (nat \<lceil>800 * B\<rceil>)" by simp
    also have "\<dots> \<le> real (frameCount evs)" using that by (simp add: n_def)
    finally show "800 * B \<le> real (frameCount evs)" .
  qed
  then show ?thesis by blast
qed

text \<open>
  Claim C9, as the code has it. With the animation intensity in 0--100 the depth speed is
  positive, and a frame maps every particle, position by position, to one with the same
  id and lifetime whose depth is larger by the depth speed. The particles kept by the
  frame are exactly the updated ones whose depth is below their lifetime and whose
  opacity is above 0.01: a particle is removed exactly when its depth has reached its
  lifetime or its opacity is 0.01 or less. A frame never lengthens the list, and shortens
  it when some particle's new depth reaches its lifetime. When no burst of an earlier
  transient is pending and no further transient occurs (frames without transient and with
  intensity in 0--100, timer callbacks, passing time, settings updates), the length never
  increases, and the list is empty once the frames number at least 800 times the largest
  remaining life; so there is a number of frames after which it is empty.
\<close>

theorem particles_decay:
  assumes "0 \<le> animationIntensity gs" "animationIntensity gs \<le> 100"
  shows "0 < depthSpeedOf gs \<and>
         list_all2 (\<lambda>p q. p_id q = p_id p \<and> p_life q = p_life p \<and>
                      p_z q = p_z p + depthSpeedOf gs \<and> p_z p < p_z q)
           (particles b) (updateParticles (depthSpeedOf gs) rnd 0 (particles b)) \<and>
         particles (fst (dspProcess sig w h gs mood rnd b))
           = filter (\<lambda>q. \<not> (p_life q \<le> p_z q \<or> p_opacity q \<le> 0.01))
               (updateParticles (depthSpeedOf gs) rnd 0 (particles b)) \<and>
         length (particles (fst (dspProcess sig w h gs mood rnd b))) \<le> length (particles b) \<and>
         ((\<exists>p\<in>set (particles b). p_life p \<le> p_z p + depthSpeedOf gs) \<longrightarrow>
            length (particles (fst (dspProcess sig w h gs mood rnd b))) < length (particles b)) \<and>
         (pendingBursts (timers b) = [] \<and> list_all calm evs \<longrightarrow>
            length (particles (run evs b)) \<le> length (particles b)) \<and>
         (pendingBursts (timers b) = [] \<and> (\<forall>p\<in>set (particles b). p_life p - p_z p \<le> B) \<and>
            list_all calm evs \<and> 1 \<le> frameCount evs \<and> 800 * B \<le> real (frameCount evs) \<longrightarrow>
              particles (run evs b) = []) \<and>
         (pendingBursts (timers b) = [] \<longrightarrow>
            (\<exists>n. \<forall>evs. list_all calm evs \<and> n \<le> frameCount evs \<longrightarrow> particles (run evs b) = []))"
proof (intro conjI impI)
  show pos: "0 < depthSpeedOf gs"
    using depthSpeedOf_bounds(1)[OF assms] by simp
  have "list_all2 (\<lambda>p q. p_id q = p_id p \<and> p_life q = p_life p \<and> p_z q = p_z p + depthSpeedOf gs)
          (particles b) (updateParticles (depthSpeedOf gs) rnd 0 (particles b))"
    by (rule updateParticles_rel)
  then show "list_all2 (\<lambda>p q. p_id q = p_id p \<and> p_life q = p_life p \<and>
                      p_z q = p_z p + depthSpeedOf gs \<and> p_z p < p_z q)
           (particles b) (updateParticles (depthSpeedOf gs) rnd 0 (particles b))"
    by (rule list_all2_mono) (use pos in simp)
  have "alive = (\<lambda>q. \<not> (p_life q \<le> p_z q \<or> p_opacity q \<le> 0.01))"
    by (rule ext) (rule alive_iff)
  then show "particles (fst (dspProcess sig w h gs mood rnd b))
           = filter (\<lambda>q. \<not> (p_life q \<le> p_z q \<or> p_opacity q \<le> 0.01))
               (updateParticles (depthSpeedOf gs) rnd 0 (particles b))"
    by (simp add: dspProcess_particles)
  show "length (particles (fst (dspProcess sig w h gs mood rnd b))) \<le> length (particles b)"
    by (rule dspProcess_length)
  show "length (particles (fst (dspProcess sig w h gs mood rnd b))) < length (particles b)"
    if "\<exists>p\<in>set (particles b). p_life p \<le> p_z p + depthSpeedOf gs"
    using that dspProcess_shrinks by blast
  show "length (particles (run evs b)) \<le> length (particles b)"
    if "pendingBursts (timers b) = [] \<and> list_all calm evs"
    using that by (simp add: calm_run_length)
  show "particles (run evs b) = []"
    if "pendingBursts (timers b) = [] \<and> (\<forall>p\<in>set (particles b). p_life p - p_z p \<le> B) \<and>
          list_all calm evs \<and> 1 \<le> frameCount evs \<and> 800 * B \<le> real (frameCount evs)"
    using that calm_run_empty by blast
  show "\<exists>n. \<forall>evs. list_all calm evs \<and> n \<le> frameCount evs \<longrightarrow> particles (run evs b) = []"
    if "pendingBursts (timers b) = []"
    using that by (rule eventually_empty)
qed

lemma lowSettings_range:
  "0 \<le> animationIntensity lowSettings" "animationIntensity lowSettings \<le> 100"
  by (simp_all add: lowSettings_def)

lemma lowSettings_speed: "depthSpeedOf lowSettings = 1 / 320"
  by (simp add: depthSpeedOf_eq lowSettings_def)

lemma decayingBridge_fields:
  "particles decayingBridge = [someParticle, agedParticle]"
  "pendingBursts (timers decayingBridge) = []"
  by (simp_all add: decayingBridge_def)

lemma aged_due: "p_life agedParticle \<le> p_z agedParticle + depthSpeedOf lowSettings"
  by (simp add: agedParticle_def someParticle_def lowSettings_speed)

lemma frameCount_replicate: "frameCount (replicate n quietFrame) = n"
  by (induction n) (simp_all add: quietFrame_def)

lemma calm_quietFrame: "calm quietFrame"
  by (simp add: calm_def quietFrame_def lowSettings_def)

lemma calm_others: "calm (Fire h rnd)" "calm (Elapse dt)" "calm (SetSettings v)"
  by (simp_all add: calm_def)

lemma decayEvents_facts: "list_all calm decayEvents" "frameCount decayEvents = 1000"
  by (simp_all add: decayEvents_def frameCount_replicate list_all_iff calm_quietFrame calm_others)

lemma decayingBridge_slack: "\<forall>p\<in>set (particles decayingBridge). p_life p - p_z p \<le> 5 / 4"
  by (simp add: decayingBridge_fields agedParticle_def someParticle_def)

text \<open>
  At intensity 50 the depth speed is 1/320. Of the two particles the aged one goes with
  the first frame; the pending pulse reset changes nothing, and after it and 1000 frames
  without transient the list is empty.
\<close>

theorem particles_decay_witness:
  "0 \<le> animationIntensity lowSettings \<and> animationIntensity lowSettings \<le> 100 \<and>
   depthSpeedOf lowSettings = 1 / 320 \<and>
   agedParticle \<in> set (particles decayingBridge) \<and>
   p_life agedParticle \<le> p_z agedParticle + depthSpeedOf lowSettings \<and>
   length (particles decayingBridge) = 2 \<and>
   length (particles (fst (dspProcess \<lparr>sig_time = 0, sig_transients = False\<rparr> 0 0 lowSettings None
      halfDraws decayingBridge))) < 2 \<and>
   pendingBursts (timers decayingBridge) = [] \<and>
   list_all calm decayEvents \<and> frameCount decayEvents = 1000 \<and>
   length (particles (run [Elapse 100, Fire 1 halfDraws, quietFrame] decayingBridge)) \<le> 2 \<and>
   particles (run decayEvents decayingBridge) = []"
proof -
  note t = particles_decay[OF lowSettings_range, where b = decayingBridge]
  have m: "agedParticle \<in> set (particles decayingBridge)" by (simp add: decayingBridge_fields)
  have l: "length (particles decayingBridge) = 2" by (simp add: decayingBridge_fields)
  have q: "list_all calm [Elapse 100, Fire 1 halfDraws, quietFrame]"
    by (simp add: calm_quietFrame calm_others)
  have a: "length (particles (fst (dspProcess \<lparr>sig_time = 0, sig_transients = False\<rparr> 0 0 lowSettings None
      halfDraws decayingBridge))) < 2"
    using t[where sig = "\<lparr>sig_time = 0, sig_transients = False\<rparr>" and w = 0 and h = 0 and mood = None
        and rnd = halfDraws,
        THEN conjunct2, THEN conjunct2, THEN conjunct2, THEN conjunct2, THEN conjunct1]
      m aged_due l by auto
  have b: "length (particles (run [Elapse 100, Fire 1 halfDraws, quietFrame] decayingBridge)) \<le> 2"
    using t[where evs = "[Elapse 100, Fire 1 halfDraws, quietFrame]",
        THEN conjunct2, THEN conjunct2, THEN conjunct2, THEN conjunct2, THEN conjunct2, THEN conjunct1]
      q decayingBridge_fields(2) l by simp
  have c: "particles (run decayEvents decayingBridge) = []"
    using t[where evs = decayEvents and B = "5 / 4",
        THEN conjunct2, THEN conjunct2, THEN conjunct2, THEN conjunct2, THEN conjunct2, THEN conjunct2,
        THEN conjunct1]
      decayEvents_facts decayingBridge_slack decayingBridge_fields(2)
    by simp
  show ?thesis
    using lowSettings_range lowSettings_speed m aged_due l a decayingBridge_fields(2)
      decayEvents_facts b c
    by simp
qed

lemma afterFirstTransient_eq:
  "afterFirstTransient =
     \<lparr>settings = verbSettings, particles = [], particleIdCounter = 0, isPulsing = True,
      pulseTimeout = Some 1, lastTransientTime = 1,
      timers = [\<lparr>t_handle = 1, t_due = 1100, t_callback = PulseOff\<rparr>, firstBurst],
      nextHandle = 3, clock = 1000\<rparr>"
  by (simp add: afterFirstTransient_def run_def transientFrame_def dspProcess_def spawnOnTransient_def
      transientAt_def newBridge_def verbSettings_def lowSettings_def setTimeout_def Let_def
      firstBurst_def burst50_def baseHue_None)

lemma afterFirstTransient_ok: "hostOk afterFirstTransient"
  unfolding afterFirstTransient_def by (rule hostOk_run) (rule hostOk_newBridge)

lemma firstBurst_facts:
  "firstBurst \<in> set (timers afterFirstTransient)" "t_callback firstBurst = Burst burst50"
  "t_handle firstBurst = 2" "t_due firstBurst = 1150"
  by (simp_all add: afterFirstTransient_eq firstBurst_def)

lemma noSecondTransient_eq:
  "noSecondTransient =
     \<lparr>settings = verbSettings, particles = [], particleIdCounter = 0, isPulsing = False,
      pulseTimeout = Some 1, lastTransientTime = 1, timers = [firstBurst],
      nextHandle = 3, clock = 1150\<rparr>"
  by (simp add: noSecondTransient_def run_def afterFirstTransient_eq fire_def runCallback_def
      firstBurst_def quietFrame_def dspProcess_def spawnOnTransient_def Let_def)

lemma noSecondTransient_ok: "hostOk noSecondTransient"
  unfolding noSecondTransient_def by (rule hostOk_run) (rule afterFirstTransient_ok)

lemma late_burst:
  "length (particles (fire 2 halfDraws noSecondTransient)) = 25"
proof -
  have m: "firstBurst \<in> set (timers noSecondTransient)" by (simp add: noSecondTransient_eq)
  have d: "t_due firstBurst \<le> clock noSecondTransient"
    by (simp add: noSecondTransient_eq firstBurst_def)
  have p: "particles noSecondTransient = []" by (simp add: noSecondTransient_eq)
  from fire_own_burst[OF noSecondTransient_ok m firstBurst_facts(2) d, of halfDraws]
  show ?thesis
    by (simp add: firstBurst_facts(3) runBurst_length p burst50_def particleCount_low_half)
qed

text \<open>
  The claim as stated fails while a burst is pending. After the only transient of the
  scenario no further transient occurs; the particle list is empty when the frame at
  1150 ms has been drawn, and the burst of that transient, run at its due time, then
  lengthens it to 25.
\<close>

theorem particles_decay_counterexample:
  "list_all calm [Elapse 100, Fire 1 halfDraws, Elapse 50, quietFrame, Fire 2 halfDraws] \<and>
   particles afterFirstTransient = [] \<and>
   length (particles (run [Elapse 100, Fire 1 halfDraws, Elapse 50, quietFrame] afterFirstTransient)) = 0 \<and>
   length (particles (run [Elapse 100, Fire 1 halfDraws, Elapse 50, quietFrame, Fire 2 halfDraws]
      afterFirstTransient)) = 25"
proof -
  have "list_all calm [Elapse 100, Fire 1 halfDraws, Elapse 50, quietFrame, Fire 2 halfDraws]"
    by (simp add: calm_quietFrame calm_others)
  moreover have "particles afterFirstTransient = []" by (simp add: afterFirstTransient_eq)
  moreover have "run [Elapse 100, Fire 1 halfDraws, Elapse 50, quietFrame] afterFirstTransient
      = noSecondTransient"
    by (simp add: noSecondTransient_def)
  moreover have "run [Elapse 100, Fire 1 halfDraws, Elapse 50, quietFrame, Fire 2 halfDraws]
      afterFirstTransient = fire 2 halfDraws noSecondTransient"
    by (simp add: noSecondTransient_def run_def)
  ultimately show ?thesis using late_burst by (simp add: noSecondTransient_eq)
qed

section \<open>MixxVerb bridge: a burst that outlives the next transient\<close>

lemma beforeSecondTransient_eq:
  "beforeSecondTransient =
     \<lparr>settings = verbSettings, particles = [], particleIdCounter = 0, isPulsing = False,
      pulseTimeout = Some 1, lastTransientTime = 1, timers = [firstBurst],
      nextHandle = 3, clock = 1110\<rparr>"
  by (simp add: beforeSecondTransient_def run_def afterFirstTransient_eq fire_def runCallback_def
      firstBurst_def)

lemma second_accepted: "accepted (transientAt (111 / 100)) beforeSecondTransient"
  by (simp add: accepted_def transientAt_def beforeSecondTransient_eq)

lemma second_frame_timers:
  "timers (step (transientFrame (111 / 100)) beforeSecondTransient) =
     [firstBurst, \<lparr>t_handle = 3, t_due = 1210, t_callback = PulseOff\<rparr>, secondBurst]"
  by (simp add: transientFrame_def dspProcess_timers spawn_timers second_accepted)
     (simp add: beforeSecondTransient_eq clearedPulse_def firstBurst_def secondBurst_def burstOf_def
        verbSettings_def lowSettings_def transientAt_def baseHue_None)

lemma pulse_timer_cleared:
  "timers (run [Elapse 110, transientFrame (111 / 100)] afterFirstTransient) =
     [firstBurst, \<lparr>t_handle = 3, t_due = 1210, t_callback = PulseOff\<rparr>, secondBurst]"
  by (simp add: run_def transientFrame_def dspProcess_def spawnOnTransient_def Let_def setTimeout_def
      clearTimeout_def afterFirstTransient_eq transientAt_def verbSettings_def lowSettings_def
      firstBurst_def secondBurst_def baseHue_None)

lemma afterSecondTransient_eq:
  "afterSecondTransient =
     \<lparr>settings = verbSettings, particles = [], particleIdCounter = 0, isPulsing = True,
      pulseTimeout = Some 3, lastTransientTime = 111 / 100,
      timers = [firstBurst, \<lparr>t_handle = 3, t_due = 1210, t_callback = PulseOff\<rparr>, secondBurst],
      nextHandle = 5, clock = 1150\<rparr>"
  by (simp add: afterSecondTransient_def run_def transientFrame_def dspProcess_def spawnOnTransient_def
      transientAt_def beforeSecondTransient_eq verbSettings_def lowSettings_def setTimeout_def
      clearTimeout_def Let_def firstBurst_def secondBurst_def baseHue_None)

lemma afterSecondTransient_ok: "hostOk afterSecondTransient"
  unfolding afterSecondTransient_def beforeSecondTransient_def
  by (intro hostOk_run) (rule afterFirstTransient_ok)

lemma stale_burst_runs:
  "fire 2 halfDraws afterSecondTransient =
     runBurst burst50 halfDraws
       (afterSecondTransient\<lparr>timers := [\<lparr>t_handle = 3, t_due = 1210, t_callback = PulseOff\<rparr>, secondBurst]\<rparr>)"
proof -
  have m: "firstBurst \<in> set (timers afterSecondTransient)" by (simp add: afterSecondTransient_eq)
  have d: "t_due firstBurst \<le> clock afterSecondTransient"
    by (simp add: afterSecondTransient_eq firstBurst_def)
  have f: "filter (\<lambda>u. t_handle u \<noteq> 2) (timers afterSecondTransient)
             = [\<lparr>t_handle = 3, t_due = 1210, t_callback = PulseOff\<rparr>, secondBurst]"
    by (simp add: afterSecondTransient_eq firstBurst_def secondBurst_def)
  from fire_own_burst[OF afterSecondTransient_ok m firstBurst_facts(2) d, of halfDraws]
  show ?thesis unfolding firstBurst_facts(3) f .
qed

text \<open>
  Claim C10 against the code. In the scenario the burst scheduled by the first transient
  (handle 2, due at 1150 ms) is pending when the second transient is observed at 1110 ms,
  before its delay has elapsed. The frame of the second transient schedules its own pulse
  reset and burst and leaves the first burst in the queue; the handle of a burst is not
  kept, so nothing can clear it. Run at 1150 ms, the first burst turns the empty particle
  list into one of 25 particles. The pulse reset is treated otherwise: had the first pulse
  reset (handle 1) still been pending at the second transient, the frame would have
  cleared it.
\<close>

theorem stale_burst_still_fires:
  "firstBurst \<in> set (timers beforeSecondTransient) \<and> t_callback firstBurst = Burst burst50 \<and>
   clock beforeSecondTransient < t_due firstBurst \<and>
   accepted (transientAt (111 / 100)) beforeSecondTransient \<and>
   timers (step (transientFrame (111 / 100)) beforeSecondTransient) =
     [firstBurst, \<lparr>t_handle = 3, t_due = 1210, t_callback = PulseOff\<rparr>, secondBurst] \<and>
   timers (run [Elapse 110, transientFrame (111 / 100)] afterFirstTransient) =
     [firstBurst, \<lparr>t_handle = 3, t_due = 1210, t_callback = PulseOff\<rparr>, secondBurst] \<and>
   particles afterSecondTransient = [] \<and> clock afterSecondTransient = t_due firstBurst \<and>
   length (particles (run [Fire 2 halfDraws] afterSecondTransient)) = 25 \<and>
   map p_id (particles (run [Fire 2 halfDraws] afterSecondTransient)) = map Suc [0..<25]"
proof -
  have a: "firstBurst \<in> set (timers beforeSecondTransient)"
    "clock beforeSecondTransient < t_due firstBurst"
    by (simp_all add: beforeSecondTransient_eq firstBurst_def)
  have b: "particles afterSecondTransient = []" "clock afterSecondTransient = t_due firstBurst"
    by (simp_all add: afterSecondTransient_eq firstBurst_def)
  have ids: "map p_id (mkParticles c rnd k i n) = map Suc [i..<i + n]" for c rnd k i n
  proof (induction n arbitrary: k i)
    case 0
    then show ?case by simp
  next
    case (Suc n)
    have "[i..<i + Suc n] = i # [Suc i..<Suc i + n]" by (simp add: upt_conv_Cons)
    with Suc[of "k + 5" "Suc i"] show ?case by (simp add: Let_def)
  qed
  have r: "run [Fire 2 halfDraws] afterSecondTransient = fire 2 halfDraws afterSecondTransient"
    by (simp add: run_def)
  have p: "particles (run [Fire 2 halfDraws] afterSecondTransient)
             = mkParticles burst50 halfDraws 0 0 25"
    unfolding r stale_burst_runs
    by (simp add: runBurst_particles afterSecondTransient_eq burst50_def particleCount_low_half)
  have "length (particles (run [Fire 2 halfDraws] afterSecondTransient)) = 25"
    unfolding p by (rule length_mkParticles)
  moreover have "map p_id (particles (run [Fire 2 halfDraws] afterSecondTransient)) = map Suc [0..<25]"
    unfolding p ids by simp
  ultimately show ?thesis
    using a firstBurst_facts(2) second_accepted second_frame_timers pulse_timer_cleared b
    by (intro conjI)
qed

end
